theory Spec2Isabelle
  imports Main "HOL-Library.Word" "HOL-Library.AList"
begin

unbundle bit_operations_syntax

section \<open>Accepter: the accept loop of \<open>Accepter::entry\<close>\<close>

text \<open>
  The accepter thread polls the listening socket and accepts connections until it is
  told to stop or the socket fails. What the environment does in one turn of the loop
  (the value of \<open>done\<close> at the loop test, the result of \<open>rpoll\<close>, the error bits of
  \<open>pfd.revents\<close>, the value of \<open>done\<close> after the poll, the result of \<open>raccept\<close>) is
  one \<open>accept_turn\<close>; the loop runs over a script of turns. When the script ends the
  loop has not left: the first component of the result is \<open>False\<close>.
\<close>

record accept_turn =
  t_done :: bool
  t_poll :: int
  t_revents_err :: bool
  t_done_after_poll :: bool
  t_sd :: int

text \<open>
  \<open>entry_loop errors turns accepted\<close> returns whether the loop was left, the counter
  \<open>errors\<close>, and the descriptors handed to \<open>msgr->add_accept_pipe\<close>, in order.
\<close>

fun entry_loop :: "int \<Rightarrow> accept_turn list \<Rightarrow> int list \<Rightarrow> bool \<times> int \<times> int list" where
  "entry_loop errors [] accepted = (False, errors, accepted)"
| "entry_loop errors (t # ts) accepted =
     (if t_done t then (True, errors, accepted)
      else if t_poll t < 0 then (True, errors, accepted)
      else if t_revents_err t then (True, errors, accepted)
      else if t_done_after_poll t then (True, errors, accepted)
      else if t_sd t \<ge> 0 then entry_loop 0 ts (accepted @ [t_sd t])
      else if errors + 1 > 4 then (True, errors + 1, accepted)
      else entry_loop (errors + 1) ts accepted)"

text \<open>\<open>Accepter::entry\<close> starts the loop with \<open>errors = 0\<close>.\<close>

definition entry :: "accept_turn list \<Rightarrow> bool \<times> int \<times> int list" where
  "entry turns = entry_loop 0 turns []"

text \<open>A turn in which the loop reaches \<open>raccept\<close>, and whether that call fails.\<close>

definition reaches_accept :: "accept_turn \<Rightarrow> bool" where
  "reaches_accept t =
     (\<not> t_done t \<and> 0 \<le> t_poll t \<and> \<not> t_revents_err t \<and> \<not> t_done_after_poll t)"

definition accept_fails :: "accept_turn \<Rightarrow> bool" where
  "accept_fails t = (reaches_accept t \<and> t_sd t < 0)"

definition accept_succeeds :: "accept_turn \<Rightarrow> bool" where
  "accept_succeeds t = (reaches_accept t \<and> 0 \<le> t_sd t)"

definition failing_turn :: accept_turn where
  "failing_turn = \<lparr>t_done = False, t_poll = 1, t_revents_err = False,
                    t_done_after_poll = False, t_sd = -1\<rparr>"

definition good_turn :: "int \<Rightarrow> accept_turn" where
  "good_turn sd = \<lparr>t_done = False, t_poll = 1, t_revents_err = False,
                    t_done_after_poll = False, t_sd = sd\<rparr>"

section \<open>Pipe: data model\<close>

text \<open>
  Sequence numbers are \<open>uint64_t\<close>, the handshake counters \<open>__u32\<close>: both wrap around.
  A \<open>Message\<close> is known here by an identity (standing for the object the pointer
  designates), the sequence number and priority of its header, and the size it reserved
  in the dispatch throttle. Reference counts (\<open>get\<close>/\<open>put\<close>) and clock stamps are not
  part of the model.
\<close>

type_synonym u64 = "64 word"
type_synonym u32 = "32 word"

datatype pipe_state =
  STATE_ACCEPTING | STATE_CONNECTING | STATE_OPEN | STATE_STANDBY
| STATE_CLOSED | STATE_CLOSING | STATE_WAIT

record message =
  m_id :: nat
  m_seq :: u64
  m_priority :: int
  m_dispatch_throttle_size :: u64

text \<open>
  \<open>Messenger::Policy\<close>. The two throttlers are nullable pointers to \<open>Throttle\<close> objects
  shared between Pipes: \<open>None\<close> is the null pointer, \<open>Some r\<close> names the counter \<open>r\<close>
  of the messenger's store of throttles.
\<close>

record Policy =
  lossy :: bool
  server :: bool
  standby :: bool
  resetcheck :: bool
  features_supported :: u64
  features_required :: u64
  throttler_bytes :: "nat option"
  throttler_messages :: "nat option"

text \<open>
  \<open>out_q\<close> is a \<open>map<int, list<Message*> >\<close>. It is kept as an association list
  read through \<open>map_of\<close>; a bucket may be an empty list, as in the map.
\<close>

type_synonym out_queue = "(int \<times> message list) list"

record 'a pipe =
  pipe_id :: nat
  peer_addr :: 'a
  policy :: Policy
  connection_state :: nat
  conn_id :: nat
  sd :: int
  socket_shutdown :: bool
  state :: pipe_state
  state_closed :: bool
  out_q :: out_queue
  sent :: "message list"
  keepalive :: bool
  close_on_empty :: bool
  session_security :: bool
  backoff :: nat
  connect_seq :: u32
  peer_global_seq :: u32
  out_seq :: u64
  in_seq :: u64
  in_seq_acked :: u64
  delay_thread :: "(nat \<times> message) list option"
  cond_signals :: nat
  waited :: "nat list"

text \<open>
  \<open>pipe_id\<close> stands for the address of the Pipe object (\<open>this\<close>), \<open>connection_state\<close>
  for the \<open>Connection\<close> it points to. \<open>backoff\<close> is a \<open>utime_t\<close>, a type declared
  outside the sources that holds seconds and nanoseconds in 32 bits each: here it is the
  number of nanoseconds, below the bound \<open>UTIME_WRAP\<close> at which the addition of the type
  wraps around. \<open>cond_signals\<close> counts the calls of \<open>cond.Signal()\<close>, and \<open>waited\<close>
  lists the intervals the Pipe waited on its condition in \<open>fault\<close>, oldest first.
  \<open>delay_thread\<close> is \<open>None\<close> for the null pointer and otherwise holds the queue of the
  delay thread (release time, message); \<open>session_security\<close> says whether that pointer is
  set.
\<close>

record connection =
  con_pipe :: "nat option"
  con_features :: u64
  con_failed :: bool

datatype notification =
  Queue_accept nat | Queue_connect nat | Queue_reset nat | Queue_remote_reset nat

text \<open>
  What a Pipe reaches through \<open>msgr\<close>: the messenger's own address, the registry
  \<open>rank_pipe\<close>, the Connections, the dispatch queue (its messages with priority and
  connection id, and the notifications queued for the application), the throttles, and
  the two backoff settings of the configuration. The settings are floating-point numbers
  of seconds; \<open>ms_initial_backoff\<close> and \<open>ms_max_backoff\<close> are the \<open>utime_t\<close> values
  that \<open>set_from_double\<close> makes of them (truncated to nanoseconds), for settings within
  the range of the type; a \<open>utime_t\<close>, a whole number of nanoseconds, is above such a
  setting when it is above that value. Floating-point rounding is not modelled.
\<close>

record 'a messenger =
  my_addr :: 'a
  rank_pipe :: "'a \<Rightarrow> nat option"
  conns :: "nat \<Rightarrow> connection"
  in_q :: "(message \<times> int \<times> nat) list"
  notifications :: "notification list"
  throttles :: "nat \<Rightarrow> int"
  dispatch_throttler :: int
  ms_initial_backoff :: nat
  ms_max_backoff :: nat

text \<open>
  Constants that the sources use and headers outside them define. They are parameters of
  the model. \<open>UTIME_WRAP\<close> is the number of nanoseconds at which the addition of
  \<open>utime_t\<close> wraps around (its seconds are a 32-bit counter).
\<close>

record constants =
  CEPH_MSG_PRIO_HIGHEST :: int
  CEPH_FEATURE_MSG_AUTH :: u64
  CEPH_FEATURE_RECONNECT_SEQ :: u64
  CEPH_MSG_FOOTER_COMPLETE :: "8 word"
  EINVAL :: int
  UTIME_WRAP :: nat

definition SEQ_MASK :: u64 where
  "SEQ_MASK = 0x7fffffff"

section \<open>Pipe: the outgoing queue\<close>

text \<open>Reading a bucket; a priority without a bucket has no messages.\<close>

definition q_get :: "int \<Rightarrow> out_queue \<Rightarrow> message list" where
  "q_get k q = (case map_of q k of None \<Rightarrow> [] | Some l \<Rightarrow> l)"

text \<open>
  \<open>out_q[k]\<close> followed by a change \<open>f\<close> of that bucket: \<open>operator[]\<close> inserts an empty
  bucket when the key is missing.
\<close>

definition q_upd :: "int \<Rightarrow> (message list \<Rightarrow> message list) \<Rightarrow> out_queue \<Rightarrow> out_queue" where
  "q_upd k f q = AList.update k (f (q_get k q)) q"

text \<open>The key at \<open>out_q.rbegin()\<close>: the highest priority with a bucket.\<close>

definition top_key :: "out_queue \<Rightarrow> int" where
  "top_key q = Max (fst ` set q)"

text \<open>
  Modelled from the spec: \<open>Pipe::_get_next_outgoing\<close> is defined in Pipe.h, which is not
  among the sources. The writer takes the head of the highest-priority non-empty bucket
  (insertion order within a bucket); buckets found or left empty are erased from the map.
\<close>

function get_next_outgoing :: "out_queue \<Rightarrow> message option \<times> out_queue" where
  "get_next_outgoing q =
     (if q = [] then (None, q)
      else
        (case q_get (top_key q) q of
           [] \<Rightarrow> get_next_outgoing (AList.delete (top_key q) q)
         | m # ms \<Rightarrow>
             (Some m, if ms = [] then AList.delete (top_key q) q
                      else AList.update (top_key q) ms q)))"
  by pat_completeness auto
termination
proof (relation "measure length")
  show "wf (measure length)" by simp
next
  fix q :: out_queue
  assume "q \<noteq> []"
  then have "top_key q \<in> fst ` set q"
    unfolding top_key_def by (intro Max_in) auto
  then obtain l where "(top_key q, l) \<in> set q" by auto
  then have "length (filter (\<lambda>(k', _). top_key q \<noteq> k') q) < length q"
    by (intro length_filter_less [of "(top_key q, l)"]) auto
  then show "(AList.delete (top_key q) q, q) \<in> measure length"
    by (simp add: AList.delete_eq)
qed

declare get_next_outgoing.simps [simp del]

text \<open>
  Modelled from the spec: \<open>Pipe::is_queued\<close> is defined in Pipe.h, which is not among
  the sources. The Pipe has work queued when \<open>out_q\<close> is not empty or the \<open>keepalive\<close>
  flag is set.
\<close>

definition is_queued :: "'a pipe \<Rightarrow> bool" where
  "is_queued p = (out_q p \<noteq> [] \<or> keepalive p)"

text \<open>
  Modelled from the spec: \<open>Pipe::shutdown_socket\<close> is defined in Pipe.h, which is not
  among the sources. It half-closes the socket, if there is one.
\<close>

definition shutdown_socket :: "'a pipe \<Rightarrow> 'a pipe" where
  "shutdown_socket p = (if 0 \<le> sd p then p\<lparr>socket_shutdown := True\<rparr> else p)"

section \<open>Pipe: sent list and sequence numbers\<close>

text \<open>The loop of \<open>Pipe::requeue_sent\<close>: \<open>sent\<close>, the bucket \<open>rq\<close> and \<open>out_seq\<close>.\<close>

function requeue_loop :: "message list \<Rightarrow> message list \<Rightarrow> u64 \<Rightarrow> message list \<times> u64" where
  "requeue_loop snt rq oseq =
     (if snt = [] then (rq, oseq)
      else requeue_loop (butlast snt) (last snt # rq) (oseq - 1))"
  by pat_completeness auto
termination
  by (relation "measure (\<lambda>(snt, rq, oseq). length snt)") auto

declare requeue_loop.simps [simp del]

definition requeue_sent :: "constants \<Rightarrow> 'a pipe \<Rightarrow> 'a pipe" where
  "requeue_sent K p =
     (if sent p = [] then p
      else
        let r = requeue_loop (sent p) (q_get (CEPH_MSG_PRIO_HIGHEST K) (out_q p)) (out_seq p)
        in p\<lparr>out_q := q_upd (CEPH_MSG_PRIO_HIGHEST K) (\<lambda>_. fst r) (out_q p),
             sent := [],
             out_seq := snd r\<rparr>)"

text \<open>The loop of \<open>Pipe::discard_requeued_up_to\<close>: the bucket \<open>rq\<close> and \<open>out_seq\<close>.\<close>

fun discard_loop :: "u64 \<Rightarrow> message list \<Rightarrow> u64 \<Rightarrow> message list \<times> u64" where
  "discard_loop seq [] oseq = ([], oseq)"
| "discard_loop seq (m # rq) oseq =
     (if m_seq m = 0 \<or> m_seq m > seq then (m # rq, oseq)
      else discard_loop seq rq (oseq + 1))"

definition discard_requeued_up_to :: "constants \<Rightarrow> u64 \<Rightarrow> 'a pipe \<Rightarrow> 'a pipe" where
  "discard_requeued_up_to K seq p =
     (let r = discard_loop seq (q_get (CEPH_MSG_PRIO_HIGHEST K) (out_q p)) (out_seq p)
      in p\<lparr>out_q := q_upd (CEPH_MSG_PRIO_HIGHEST K) (\<lambda>_. fst r) (out_q p),
           out_seq := snd r\<rparr>)"

definition discard_out_queue :: "'a pipe \<Rightarrow> 'a pipe" where
  "discard_out_queue p = p\<lparr>sent := [], out_q := []\<rparr>"

definition stop :: "'a pipe \<Rightarrow> 'a pipe" where
  "stop p =
     shutdown_socket (p\<lparr>state := STATE_CLOSED, state_closed := True,
                        cond_signals := cond_signals p + 1\<rparr>)"

fun handle_ack_loop :: "u64 \<Rightarrow> message list \<Rightarrow> message list" where
  "handle_ack_loop seq [] = []"
| "handle_ack_loop seq (m # snt) =
     (if m_seq m \<le> seq then handle_ack_loop seq snt else m # snt)"

definition handle_ack :: "u64 \<Rightarrow> 'a pipe \<Rightarrow> 'a pipe" where
  "handle_ack seq p =
     (let p1 = p\<lparr>sent := handle_ack_loop seq (sent p)\<rparr>
      in if sent p1 = [] \<and> close_on_empty p1 then stop p1 else p1)"

text \<open>
  The writer taking its next message (\<open>Pipe::writer\<close>, "grab outgoing message"): the
  message gets \<open>++out_seq\<close> and, unless the Pipe is lossy and not closing on empty, goes
  on the \<open>sent\<close> list. The result is the Pipe and the message as it goes to the socket.
\<close>

definition writer_next :: "'a pipe \<Rightarrow> 'a pipe \<times> message option" where
  "writer_next p =
     (case get_next_outgoing (out_q p) of
        (None, q) \<Rightarrow> (p\<lparr>out_q := q\<rparr>, None)
      | (Some m, q) \<Rightarrow>
          let m' = m\<lparr>m_seq := out_seq p + 1\<rparr>
          in (p\<lparr>out_q := q,
                out_seq := out_seq p + 1,
                sent := (if \<not> lossy (policy p) \<or> close_on_empty p
                         then sent p @ [m'] else sent p)\<rparr>,
              Some m'))"

text \<open>The next \<open>n\<close> messages the writer takes, in order, while there are any.\<close>

fun writer_drain :: "nat \<Rightarrow> 'a pipe \<Rightarrow> 'a pipe \<times> message list" where
  "writer_drain 0 p = (p, [])"
| "writer_drain (Suc n) p =
     (case writer_next p of
        (p', None) \<Rightarrow> (p', [])
      | (p', Some m) \<Rightarrow> (fst (writer_drain n p'), m # snd (writer_drain n p')))"

text \<open>
  The messages \<open>ms\<close> carry the sequence numbers that follow \<open>s\<close>: \<open>s + 1\<close>, \<open>s + 2\<close>, ...
  in this order, as the writer assigns them.
\<close>

fun seqs_from :: "u64 \<Rightarrow> message list \<Rightarrow> bool" where
  "seqs_from s [] = True"
| "seqs_from s (m # ms) = (m_seq m = s + 1 \<and> seqs_from (s + 1) ms)"

text \<open>A message that \<open>discard_requeued_up_to seq\<close> drops when it is at the front.\<close>

definition discardable :: "u64 \<Rightarrow> message \<Rightarrow> bool" where
  "discardable seq m = (m_seq m \<noteq> 0 \<and> m_seq m \<le> seq)"

section \<open>Messenger, dispatch queue and Connection\<close>

text \<open>
  Modelled from the spec: the dispatch queue (\<open>DispatchQueue\<close>) is not among the
  sources. \<open>enqueue\<close> adds a message with its priority and connection id,
  \<open>discard_queue\<close> discards what is queued for one connection id, and \<open>queue_accept\<close>,
  \<open>queue_connect\<close>, \<open>queue_reset\<close>, \<open>queue_remote_reset\<close> queue a notification for
  the application.
\<close>

definition dq_enqueue :: "message \<Rightarrow> int \<Rightarrow> nat \<Rightarrow> 'a messenger \<Rightarrow> 'a messenger" where
  "dq_enqueue m prio cid w = w\<lparr>in_q := in_q w @ [(m, prio, cid)]\<rparr>"

definition dq_discard_queue :: "nat \<Rightarrow> 'a messenger \<Rightarrow> 'a messenger" where
  "dq_discard_queue cid w = w\<lparr>in_q := filter (\<lambda>(m, prio, c). c \<noteq> cid) (in_q w)\<rparr>"

definition dq_notify :: "notification \<Rightarrow> 'a messenger \<Rightarrow> 'a messenger" where
  "dq_notify n w = w\<lparr>notifications := notifications w @ [n]\<rparr>"

text \<open>
  Modelled from the spec: \<open>SimpleMessenger::dispatch_throttle_release\<close> is not among
  the sources. It gives \<open>msize\<close> units back to the global dispatch throttle.
\<close>

definition dispatch_throttle_release :: "u64 \<Rightarrow> 'a messenger \<Rightarrow> 'a messenger" where
  "dispatch_throttle_release msize w =
     (if msize \<noteq> 0 then w\<lparr>dispatch_throttler := dispatch_throttler w - uint msize\<rparr> else w)"

text \<open>
  Modelled from the spec: \<open>Throttle\<close> is not among the sources. A throttle is a counted
  semaphore: \<open>get\<close> takes units (the call blocks until they are granted; the model is the
  state once they are), \<open>put\<close> gives them back.
\<close>

definition throttle_get :: "nat \<Rightarrow> int \<Rightarrow> 'a messenger \<Rightarrow> 'a messenger" where
  "throttle_get r c w = w\<lparr>throttles := (throttles w)(r := throttles w r + c)\<rparr>"

definition throttle_put :: "nat \<Rightarrow> int \<Rightarrow> 'a messenger \<Rightarrow> 'a messenger" where
  "throttle_put r c w = w\<lparr>throttles := (throttles w)(r := throttles w r - c)\<rparr>"

text \<open>
  Modelled from the spec: \<open>Connection\<close> is not among the sources. \<open>clear_pipe\<close> detaches
  the given Pipe from the Connection and marks the Connection failed; \<open>reset_pipe\<close> makes
  the Connection reference the given Pipe.
\<close>

definition clear_pipe :: "nat \<Rightarrow> nat \<Rightarrow> 'a messenger \<Rightarrow> 'a messenger" where
  "clear_pipe c pid w =
     (if con_pipe (conns w c) = Some pid
      then w\<lparr>conns := (conns w)(c := (conns w c)\<lparr>con_pipe := None, con_failed := True\<rparr>)\<rparr>
      else w)"

definition reset_pipe :: "nat \<Rightarrow> nat \<Rightarrow> 'a messenger \<Rightarrow> 'a messenger" where
  "reset_pipe c pid w = w\<lparr>conns := (conns w)(c := (conns w c)\<lparr>con_pipe := Some pid\<rparr>)\<rparr>"

definition unregister_pipe :: "'a messenger \<Rightarrow> 'a pipe \<Rightarrow> 'a messenger" where
  "unregister_pipe w p =
     (if rank_pipe w (peer_addr p) = Some (pipe_id p)
      then w\<lparr>rank_pipe := (rank_pipe w)(peer_addr p := None)\<rparr>
      else w)"

section \<open>Pipe: the delay queue\<close>

fun delay_discard_loop :: "(nat \<times> message) list \<Rightarrow> 'a messenger \<Rightarrow> 'a messenger" where
  "delay_discard_loop [] w = w"
| "delay_discard_loop ((t, m) # dq) w =
     delay_discard_loop dq (dispatch_throttle_release (m_dispatch_throttle_size m) w)"

text \<open>\<open>if (delay_thread) delay_thread->discard()\<close>, and the same for \<open>flush\<close>.\<close>

definition delay_discard :: "'a messenger \<times> 'a pipe \<Rightarrow> 'a messenger \<times> 'a pipe" where
  "delay_discard wp =
     (case delay_thread (snd wp) of
        None \<Rightarrow> wp
      | Some dq \<Rightarrow> (delay_discard_loop dq (fst wp), (snd wp)\<lparr>delay_thread := Some []\<rparr>))"

fun delay_flush_loop :: "nat \<Rightarrow> (nat \<times> message) list \<Rightarrow> 'a messenger \<Rightarrow> 'a messenger" where
  "delay_flush_loop cid [] w = w"
| "delay_flush_loop cid ((t, m) # dq) w =
     delay_flush_loop cid dq (dq_enqueue m (m_priority m) cid w)"

definition delay_flush :: "'a messenger \<times> 'a pipe \<Rightarrow> 'a messenger \<times> 'a pipe" where
  "delay_flush wp =
     (case delay_thread (snd wp) of
        None \<Rightarrow> wp
      | Some dq \<Rightarrow>
          (delay_flush_loop (conn_id (snd wp)) dq (fst wp), (snd wp)\<lparr>delay_thread := Some []\<rparr>))"

section \<open>Pipe: fault\<close>

text \<open>
  \<open>Pipe::fault\<close>, in the order of the source. The lossy branch gives up \<open>pipe_lock\<close>
  and takes it again, and so does the wait on the condition in the backoff branch; what
  other threads do in between is outside the model.
\<close>

definition fault_lossy :: "'a messenger \<times> 'a pipe \<Rightarrow> 'a messenger \<times> 'a pipe" where
  "fault_lossy wp =
     (let p1 = stop (snd wp);
          w1 = unregister_pipe (fst wp) p1;
          w2 = dq_discard_queue (conn_id p1) w1;
          wp3 = delay_discard (w2, p1);
          p4 = discard_out_queue (snd wp3);
          w4 = clear_pipe (connection_state p4) (pipe_id p4) (fst wp3);
          w5 = dq_notify (Queue_reset (connection_state p4)) w4
      in (w5, p4))"

text \<open>\<open>backoff += backoff\<close> on \<open>utime_t\<close>: the sum, wrapped around.\<close>

definition utime_add :: "constants \<Rightarrow> nat \<Rightarrow> nat \<Rightarrow> nat" where
  "utime_add K a b = (a + b) mod UTIME_WRAP K"

definition fault_retry :: "constants \<Rightarrow> 'a messenger \<Rightarrow> 'a pipe \<Rightarrow> 'a pipe" where
  "fault_retry K w p =
     (if standby (policy p) \<and> \<not> is_queued p then p\<lparr>state := STATE_STANDBY\<rparr>
      else if state p \<noteq> STATE_CONNECTING then
        (if server (policy p) then p\<lparr>state := STATE_STANDBY, backoff := 0\<rparr>
         else p\<lparr>connect_seq := connect_seq p + 1, state := STATE_CONNECTING, backoff := 0\<rparr>)
      else if backoff p = 0 then p\<lparr>backoff := ms_initial_backoff w\<rparr>
      else
        p\<lparr>waited := waited p @ [backoff p],
          backoff := (if utime_add K (backoff p) (backoff p) > ms_max_backoff w
                      then ms_max_backoff w
                      else utime_add K (backoff p) (backoff p))\<rparr>)"

definition fault :: "constants \<Rightarrow> bool \<Rightarrow> 'a messenger \<times> 'a pipe \<Rightarrow> 'a messenger \<times> 'a pipe" where
  "fault K onread wp =
     (let p0 = (snd wp)\<lparr>cond_signals := cond_signals (snd wp) + 1\<rparr> in
      if onread \<and> state p0 = STATE_CONNECTING then (fst wp, p0)
      else if state p0 = STATE_CLOSED \<or> state p0 = STATE_CLOSING then (fst wp, p0)
      else
        let p1 = shutdown_socket p0 in
        if lossy (policy p1) \<and> state p1 \<noteq> STATE_CONNECTING then fault_lossy (fst wp, p1)
        else
          let wp2 = delay_flush (fst wp, p1);
              p3 = requeue_sent K (snd wp2)
          in (fst wp2, fault_retry K (fst wp2) p3))"

section \<open>Pipe: session reset\<close>

text \<open>\<open>rnd\<close> is what \<open>get_random_bytes\<close> writes into \<open>out_seq\<close>.\<close>

definition randomize_out_seq :: "constants \<Rightarrow> u64 \<Rightarrow> 'a messenger \<Rightarrow> 'a pipe \<Rightarrow> 'a pipe" where
  "randomize_out_seq K rnd w p =
     (if con_features (conns w (connection_state p)) AND CEPH_FEATURE_MSG_AUTH K \<noteq> 0
      then p\<lparr>out_seq := rnd AND SEQ_MASK\<rparr>
      else p\<lparr>out_seq := 0\<rparr>)"

definition was_session_reset ::
  "constants \<Rightarrow> u64 \<Rightarrow> 'a messenger \<times> 'a pipe \<Rightarrow> 'a messenger \<times> 'a pipe" where
  "was_session_reset K rnd wp =
     (let w1 = dq_discard_queue (conn_id (snd wp)) (fst wp);
          wp2 = delay_discard (w1, snd wp);
          p3 = discard_out_queue (snd wp2);
          w3 = dq_notify (Queue_remote_reset (connection_state p3)) (fst wp2);
          p4 = randomize_out_seq K rnd w3 p3
      in (w3, p4\<lparr>in_seq := 0, connect_seq := 0\<rparr>))"

section \<open>Pipe: the server side of the handshake\<close>

datatype tag =
  CEPH_MSGR_TAG_READY | CEPH_MSGR_TAG_RESETSESSION | CEPH_MSGR_TAG_WAIT
| CEPH_MSGR_TAG_RETRY_SESSION | CEPH_MSGR_TAG_RETRY_GLOBAL | CEPH_MSGR_TAG_CLOSE
| CEPH_MSGR_TAG_MSG | CEPH_MSGR_TAG_ACK | CEPH_MSGR_TAG_KEEPALIVE
| CEPH_MSGR_TAG_BADPROTOVER | CEPH_MSGR_TAG_BADAUTHORIZER | CEPH_MSGR_TAG_FEATURES
| CEPH_MSGR_TAG_SEQ

record ceph_msg_connect =
  c_features :: u64
  c_host_type :: u32
  c_global_seq :: u32
  c_connect_seq :: u32
  c_protocol_version :: u32
  c_authorizer_protocol :: u32
  c_authorizer_len :: u32
  c_flags :: "8 word"

text \<open>
  Where one turn of the handshake loop of \<open>Pipe::accept\<close> goes once the authorizer is
  verified: to \<open>reply\<close> with a tag and the \<open>global_seq\<close> and \<open>connect_seq\<close> of the
  reply (zero unless set), to \<open>replace\<close>, to \<open>open\<close>, or into a failed \<open>assert\<close>.
\<close>

datatype accept_step =
  Goto_reply tag u32 u32 | Goto_replace | Goto_open | Assert_failed

text \<open>
  Modelled from the spec: \<open>Pipe::_send_keepalive\<close> is defined in Pipe.h, which is not
  among the sources. It sets the \<open>keepalive\<close> flag and wakes the writer.
\<close>

definition send_keepalive :: "'a pipe \<Rightarrow> 'a pipe" where
  "send_keepalive p = p\<lparr>keepalive := True, cond_signals := cond_signals p + 1\<rparr>"

definition retry_session :: "'a pipe \<Rightarrow> accept_step" where
  "retry_session existing =
     Goto_reply CEPH_MSGR_TAG_RETRY_SESSION 0 (connect_seq existing + 1)"

text \<open>
  The branch \<open>if (existing)\<close>: \<open>this\<close> is the accepting Pipe (its \<open>peer_addr\<close> and
  \<open>policy\<close> are set), \<open>existing\<close> the Pipe that \<open>_lookup_pipe(peer_addr)\<close> found
  (that function is not among the sources: its result is an argument here). Addresses
  (\<open>entity_addr_t\<close>, declared outside the sources) are of any linearly ordered type.
\<close>

definition accept_existing ::
  "constants \<Rightarrow> u64 \<Rightarrow> ceph_msg_connect \<Rightarrow> ('a::linorder) pipe \<Rightarrow> 'a messenger \<Rightarrow> 'a pipe
   \<Rightarrow> accept_step \<times> 'a messenger \<times> 'a pipe" where
  "accept_existing K rnd connect this w existing =
     (if c_global_seq connect < peer_global_seq existing
      then (Goto_reply CEPH_MSGR_TAG_RETRY_GLOBAL (peer_global_seq existing) 0, w, existing)
      else if lossy (policy existing)
      then (Goto_replace, was_session_reset K rnd (w, existing))
      else if c_connect_seq connect = 0 \<and> connect_seq existing > 0
      then (if resetcheck (policy this)
            then (Goto_replace, was_session_reset K rnd (w, existing))
            else (Goto_replace, w, existing))
      else if c_connect_seq connect < connect_seq existing
      then (retry_session existing, w, existing)
      else if c_connect_seq connect = connect_seq existing
      then (if state existing = STATE_OPEN \<or> state existing = STATE_STANDBY
            then (retry_session existing, w, existing)
            else if peer_addr this < my_addr w \<or> server (policy existing)
            then (if state existing = STATE_CONNECTING \<or> state existing = STATE_WAIT
                  then (Goto_replace, w, existing)
                  else (Assert_failed, w, existing))
            else if \<not> peer_addr this > my_addr w then (Assert_failed, w, existing)
            else if state existing \<noteq> STATE_CONNECTING then (Assert_failed, w, existing)
            else (Goto_reply CEPH_MSGR_TAG_WAIT 0 0, w, send_keepalive existing))
      else if \<not> c_connect_seq connect > connect_seq existing then (Assert_failed, w, existing)
      else if \<not> c_global_seq connect \<ge> peer_global_seq existing
      then (Assert_failed, w, existing)
      else if resetcheck (policy this) \<and> connect_seq existing = 0
      then (Goto_reply CEPH_MSGR_TAG_RESETSESSION 0 0, w, existing)
      else (Goto_replace, w, existing))"

text \<open>The whole lookup: \<open>existing\<close> is \<open>None\<close> when \<open>_lookup_pipe\<close> returns null.\<close>

definition accept_lookup ::
  "constants \<Rightarrow> u64 \<Rightarrow> ceph_msg_connect \<Rightarrow> ('a::linorder) pipe \<Rightarrow> 'a messenger
   \<Rightarrow> 'a pipe option \<Rightarrow> accept_step \<times> 'a messenger \<times> 'a pipe option" where
  "accept_lookup K rnd connect this w existing =
     (case existing of
        Some e \<Rightarrow>
          (case accept_existing K rnd connect this w e of (st, w', e') \<Rightarrow> (st, w', Some e'))
      | None \<Rightarrow>
          if resetcheck (policy this) \<and> c_connect_seq connect > 0
          then (Goto_reply CEPH_MSGR_TAG_RESETSESSION 0 0, w, None)
          else (Goto_open, w, None))"

text \<open>
  The loop that splices every bucket of \<open>existing->out_q\<close> in front of the bucket of the
  same priority of \<open>out_q\<close>, and what it leaves of \<open>existing->out_q\<close>: the keys, with
  empty buckets.
\<close>

definition splice_queues :: "out_queue \<Rightarrow> out_queue \<Rightarrow> out_queue" where
  "splice_queues eq q =
     fold (\<lambda>k q'. q_upd k (\<lambda>cur. q_get k eq @ cur) q') (remdups (map fst eq)) q"

definition spliced_out :: "out_queue \<Rightarrow> out_queue" where
  "spliced_out eq = map (\<lambda>k. (k, [])) (remdups (map fst eq))"

text \<open>
  The block at the label \<open>replace\<close>. The result is the messenger, the replaced Pipe, the
  accepting Pipe, whether the reply will carry the tag \<open>SEQ\<close>, and \<open>existing_seq\<close>.
\<close>

definition accept_replace ::
  "constants \<Rightarrow> ceph_msg_connect \<Rightarrow> 'a messenger \<Rightarrow> 'a pipe \<Rightarrow> 'a pipe
   \<Rightarrow> 'a messenger \<times> 'a pipe \<times> 'a pipe \<times> bool \<times> u64" where
  "accept_replace K connect w existing this =
     (let reply_seq = (c_features connect AND CEPH_FEATURE_RECONNECT_SEQ K \<noteq> 0);
          existing_seq = (if reply_seq then in_seq existing else - 1);
          e1 = stop existing;
          w1 = unregister_pipe w e1
      in if \<not> lossy (policy e1) then
           let t1 = this\<lparr>connection_state := connection_state e1\<rparr>;
               w2 = reset_pipe (connection_state e1) (pipe_id this) w1;
               wp3 = delay_flush (w2, e1);
               e3 = snd wp3;
               t2 = t1\<lparr>conn_id := conn_id e3, in_seq := in_seq e3, in_seq_acked := in_seq e3\<rparr>;
               e4 = requeue_sent K (e3\<lparr>conn_id := conn_id this\<rparr>);
               t3 = t2\<lparr>out_seq := out_seq e4, out_q := splice_queues (out_q e4) (out_q t2)\<rparr>;
               e5 = e4\<lparr>out_q := spliced_out (out_q e4)\<rparr>
           in (fst wp3, e5, t3, reply_seq, existing_seq)
         else (w1, e1, this, reply_seq, existing_seq))"

section \<open>Pipe: the reader\<close>

text \<open>
  What the reader finds on the socket in one turn of its loop: the tag could not be
  read, a keepalive, an ack (with its sequence number, unless reading it failed), a
  message (the return value of \<open>read_message\<close> and the message, if any), a close, or an
  unknown tag.
\<close>

datatype reader_event =
  Tag_read_failed | Got_keepalive | Got_ack "u64 option"
| Got_msg int "message option" | Got_close | Got_bad_tag

text \<open>
  The reader after \<open>read_message\<close> has returned \<open>r\<close> and the message. \<open>release\<close> is the
  release time the delay thread is given (drawn at random in the source).
  Modelled from the spec: \<open>DelayedDelivery::queue\<close> is defined in Pipe.h, which is not
  among the sources; it puts the message, with its release time, at the back of the delay
  queue.
\<close>

definition reader_got_message ::
  "constants \<Rightarrow> nat \<Rightarrow> int \<Rightarrow> message option \<Rightarrow> 'a messenger \<times> 'a pipe
   \<Rightarrow> 'a messenger \<times> 'a pipe" where
  "reader_got_message K release r mo wp =
     (case mo of
        None \<Rightarrow> if r < 0 then fault K True wp else wp
      | Some m \<Rightarrow>
          let w = fst wp; p = snd wp in
          if state p = STATE_CLOSED \<or> state p = STATE_CONNECTING
          then (dispatch_throttle_release (m_dispatch_throttle_size m) w, p)
          else if m_seq m \<le> in_seq p
          then (dispatch_throttle_release (m_dispatch_throttle_size m) w, p)
          else
            let p1 = p\<lparr>in_seq := m_seq m, cond_signals := cond_signals p + 1\<rparr> in
            (case delay_thread p1 of
               Some dq \<Rightarrow> (w, p1\<lparr>delay_thread := Some (dq @ [(release, m)])\<rparr>)
             | None \<Rightarrow> (dq_enqueue m (m_priority m) (conn_id p1) w, p1)))"

text \<open>
  One turn of the loop of \<open>Pipe::reader\<close>. In state CLOSED or CONNECTING the loop is
  left, in STANDBY the reader sleeps; in both cases nothing is read.
\<close>

definition reader_turn ::
  "constants \<Rightarrow> nat \<Rightarrow> reader_event \<Rightarrow> 'a messenger \<times> 'a pipe \<Rightarrow> 'a messenger \<times> 'a pipe" where
  "reader_turn K release ev wp =
     (let w = fst wp; p = snd wp in
      if state p = STATE_CLOSED \<or> state p = STATE_CONNECTING then wp
      else if state p = STATE_STANDBY then wp
      else
        (case ev of
           Tag_read_failed \<Rightarrow> fault K True wp
         | Got_keepalive \<Rightarrow> wp
         | Got_ack None \<Rightarrow> fault K True wp
         | Got_ack (Some seq) \<Rightarrow>
             if state p \<noteq> STATE_CLOSED then (w, handle_ack seq p) else wp
         | Got_msg r mo \<Rightarrow> reader_got_message K release r mo wp
         | Got_close \<Rightarrow>
             (w, (if state p = STATE_CLOSING
                  then p\<lparr>state := STATE_CLOSED, state_closed := True\<rparr>
                  else p\<lparr>state := STATE_CLOSING\<rparr>)\<lparr>cond_signals := cond_signals p + 1\<rparr>)
         | Got_bad_tag \<Rightarrow> fault K True wp))"

text \<open>
  \<open>reader_turns\<close> makes the turns given one after the other, whether or not the loop
  would go on. \<open>reader_loop\<close> is the loop of \<open>Pipe::reader\<close> over the turns given: it
  is left in state CLOSED or CONNECTING, and after a CLOSE tag (\<open>break\<close>).
\<close>

fun reader_turns ::
  "constants \<Rightarrow> nat \<Rightarrow> reader_event list \<Rightarrow> 'a messenger \<times> 'a pipe \<Rightarrow> 'a messenger \<times> 'a pipe" where
  "reader_turns K release [] wp = wp"
| "reader_turns K release (ev # evs) wp = reader_turns K release evs (reader_turn K release ev wp)"

fun reader_loop ::
  "constants \<Rightarrow> nat \<Rightarrow> reader_event list \<Rightarrow> 'a messenger \<times> 'a pipe \<Rightarrow> 'a messenger \<times> 'a pipe" where
  "reader_loop K release [] wp = wp"
| "reader_loop K release (ev # evs) wp =
     (if state (snd wp) = STATE_CLOSED \<or> state (snd wp) = STATE_CONNECTING then wp
      else if state (snd wp) \<noteq> STATE_STANDBY \<and> ev = Got_close
      then reader_turn K release ev wp
      else reader_loop K release evs (reader_turn K release ev wp))"

section \<open>Pipe: reading one message\<close>

record ceph_msg_header =
  h_seq :: u64
  h_tid :: u64
  h_front_len :: u32
  h_middle_len :: u32
  h_data_len :: u32
  h_data_off :: "16 word"
  h_crc :: u32

record ceph_msg_footer =
  f_front_crc :: u32
  f_middle_crc :: u32
  f_data_crc :: u32
  f_sig :: u64
  f_flags :: "8 word"

text \<open>
  One turn of the loop that reads the data: \<open>tcp_read_wait\<close> failed, or
  \<open>tcp_read_nonblocking\<close> returned \<open>got\<close>.
\<close>

datatype data_read = Wait_failed | Read_got int

text \<open>
  What the socket and the codec give to one call of \<open>read_message\<close>: the header with
  the checksum computed over its bytes (\<open>None\<close> when the read failed), whether the reads
  of front and middle succeed, the turns of the data loop, the footer (\<open>None\<close> when the
  read failed), the message \<open>decode_message\<close> returns (\<open>None\<close> for null), and whether
  \<open>check_message_signature\<close> reports a bad signature. The two wire layouts of header and
  footer carry the same fields; buffers are not modelled.
\<close>

record wire =
  w_header :: "(ceph_msg_header \<times> u32) option"
  w_front_ok :: bool
  w_middle_ok :: bool
  w_data :: "data_read list"
  w_footer :: "ceph_msg_footer option"
  w_decoded :: "message option"
  w_signature_bad :: bool

text \<open>
  The data loop, \<open>while (left > 0)\<close>: \<open>Some True\<close> when all the data is read,
  \<open>Some False\<close> on the way to \<open>out_dethrottle\<close>, \<open>None\<close> when the turns given run out
  before the loop ends.
\<close>

fun read_data :: "u32 \<Rightarrow> data_read list \<Rightarrow> bool option" where
  "read_data left [] = (if left > 0 then None else Some True)"
| "read_data left (e # evs) =
     (if \<not> left > 0 then Some True
      else
        (case e of
           Wait_failed \<Rightarrow> Some False
         | Read_got got \<Rightarrow>
             if got < 0 then Some False
             else if got > 0 then read_data (left - word_of_int got) evs
             else read_data left evs))"

text \<open>
  \<open>read_message\<close> from the read of front to the return: \<open>Some (ret, Some m)\<close> is the
  return of \<open>m\<close> through \<open>*pm\<close>, \<open>Some (ret, None)\<close> a jump to \<open>out_dethrottle\<close> with
  \<open>ret\<close>, \<open>None\<close> a data loop that has not ended.
\<close>

definition read_body ::
  "constants \<Rightarrow> wire \<Rightarrow> 'a messenger \<Rightarrow> 'a pipe \<Rightarrow> ceph_msg_header \<Rightarrow> u64
   \<Rightarrow> (int \<times> message option) option" where
  "read_body K wi w p header message_size =
     (if h_front_len header \<noteq> 0 \<and> \<not> w_front_ok wi then Some (- 1, None)
      else if h_middle_len header \<noteq> 0 \<and> \<not> w_middle_ok wi then Some (- 1, None)
      else
        (case (if h_data_len header \<noteq> 0 then read_data (h_data_len header) (w_data wi)
               else Some True) of
           None \<Rightarrow> None
         | Some False \<Rightarrow> Some (- 1, None)
         | Some True \<Rightarrow>
             (case w_footer wi of
                None \<Rightarrow> Some (- 1, None)
              | Some f \<Rightarrow>
                  let footer =
                        (if con_features (conns w (connection_state p))
                              AND CEPH_FEATURE_MSG_AUTH K \<noteq> 0
                         then f else f\<lparr>f_sig := 0\<rparr>);
                      aborted = (f_flags footer AND CEPH_MSG_FOOTER_COMPLETE K = 0)
                  in if aborted then Some (0, None)
                     else
                       (case w_decoded wi of
                          None \<Rightarrow> Some (- EINVAL K, None)
                        | Some m \<Rightarrow>
                            if session_security p \<and> w_signature_bad wi
                            then Some (- EINVAL K, None)
                            else Some (0, Some (m\<lparr>m_dispatch_throttle_size := message_size\<rparr>))))))"

definition throttle_acquire :: "'a pipe \<Rightarrow> u64 \<Rightarrow> 'a messenger \<Rightarrow> 'a messenger" where
  "throttle_acquire p message_size w =
     (let w1 = (case throttler_messages (policy p) of
                  Some r \<Rightarrow> throttle_get r 1 w | None \<Rightarrow> w)
      in if message_size \<noteq> 0 then
           let w2 = (case throttler_bytes (policy p) of
                       Some r \<Rightarrow> throttle_get r (uint message_size) w1 | None \<Rightarrow> w1)
           in w2\<lparr>dispatch_throttler := dispatch_throttler w2 + uint message_size\<rparr>
         else w1)"

definition throttle_release :: "'a pipe \<Rightarrow> u64 \<Rightarrow> 'a messenger \<Rightarrow> 'a messenger" where
  "throttle_release p message_size w =
     (let w1 = (case throttler_messages (policy p) of
                  Some r \<Rightarrow> throttle_put r 1 w | None \<Rightarrow> w)
      in if message_size \<noteq> 0 then
           let w2 = (case throttler_bytes (policy p) of
                       Some r \<Rightarrow> throttle_put r (uint message_size) w1 | None \<Rightarrow> w1)
           in dispatch_throttle_release message_size w2
         else w1)"

text \<open>
  \<open>Pipe::read_message\<close>: the return value, the message stored through \<open>pm\<close> (if any),
  and the messenger with its throttles; \<open>None\<close> when the data loop has not ended.
\<close>

definition read_message ::
  "constants \<Rightarrow> wire \<Rightarrow> 'a messenger \<Rightarrow> 'a pipe \<Rightarrow> (int \<times> message option \<times> 'a messenger) option" where
  "read_message K wi w p =
     (case w_header wi of
        None \<Rightarrow> Some (- 1, None, w)
      | Some (header, header_crc) \<Rightarrow>
          if header_crc \<noteq> h_crc header then Some (- 1, None, w)
          else
            let message_size =
                  (ucast (h_front_len header + h_middle_len header + h_data_len header) :: u64);
                w1 = throttle_acquire p message_size w
            in (case read_body K wi w1 p header message_size of
                  None \<Rightarrow> None
                | Some (ret, Some m) \<Rightarrow> Some (ret, Some m, w1)
                | Some (ret, None) \<Rightarrow> Some (ret, None, throttle_release p message_size w1)))"

section \<open>Concrete states\<close>

text \<open>
  Values for the constants (those of the headers of this code base), and a messenger,
  a Pipe and messages to run the definitions on. Addresses are natural numbers here.
\<close>

definition example_constants :: constants where
  "example_constants =
     \<lparr>CEPH_MSG_PRIO_HIGHEST = 255, CEPH_FEATURE_MSG_AUTH = 0x800000,
      CEPH_FEATURE_RECONNECT_SEQ = 0x40, CEPH_MSG_FOOTER_COMPLETE = 1, EINVAL = 22,
      UTIME_WRAP = 4294967296000000000\<rparr>"

definition msg :: "nat \<Rightarrow> u64 \<Rightarrow> message" where
  "msg i s = \<lparr>m_id = i, m_seq = s, m_priority = 127, m_dispatch_throttle_size = 0\<rparr>"

definition example_policy :: Policy where
  "example_policy =
     \<lparr>lossy = False, server = False, standby = False, resetcheck = False,
      features_supported = 0, features_required = 0,
      throttler_bytes = None, throttler_messages = None\<rparr>"

definition example_pipe :: "nat pipe" where
  "example_pipe =
     \<lparr>pipe_id = 1, peer_addr = 20, policy = example_policy, connection_state = 1,
      conn_id = 1, sd = 5, socket_shutdown = False, state = STATE_OPEN,
      state_closed = False, out_q = [], sent = [], keepalive = False,
      close_on_empty = False, session_security = False, backoff = 0, connect_seq = 0,
      peer_global_seq = 0, out_seq = 0, in_seq = 0, in_seq_acked = 0,
      delay_thread = None, cond_signals = 0, waited = []\<rparr>"

definition example_connection :: connection where
  "example_connection = \<lparr>con_pipe = Some 1, con_features = 0, con_failed = False\<rparr>"

definition example_messenger :: "nat messenger" where
  "example_messenger =
     \<lparr>my_addr = 10, rank_pipe = Map.empty(20 \<mapsto> 1), conns = (\<lambda>c. example_connection),
      in_q = [], notifications = [], throttles = (\<lambda>r. 0), dispatch_throttler = 0,
      ms_initial_backoff = 2, ms_max_backoff = 15\<rparr>"

text \<open>A Pipe with a requeued run at the front of its queue.\<close>

definition requeued_pipe :: "nat pipe" where
  "requeued_pipe =
     example_pipe\<lparr>out_q := [(255, [msg 1 3, msg 2 4, msg 3 5, msg 4 0])], out_seq := 2\<rparr>"

text \<open>
  Pipes that take a fault: connecting with work queued, connecting with a standby
  policy and nothing queued, and lossy with three messages queued and one delayed; and a
  messenger whose two backoff settings are \<open>2^31\<close> seconds.
\<close>

definition connecting_pipe :: "nat pipe" where
  "connecting_pipe = example_pipe\<lparr>state := STATE_CONNECTING, out_q := [(127, [msg 1 0])]\<rparr>"

definition slow_messenger :: "nat messenger" where
  "slow_messenger =
     example_messenger\<lparr>ms_initial_backoff := 2147483648000000000,
                       ms_max_backoff := 2147483648000000000\<rparr>"

definition idle_standby_pipe :: "nat pipe" where
  "idle_standby_pipe =
     example_pipe\<lparr>state := STATE_CONNECTING, policy := example_policy\<lparr>standby := True\<rparr>\<rparr>"

definition lossy_pipe :: "nat pipe" where
  "lossy_pipe =
     example_pipe\<lparr>policy := example_policy\<lparr>lossy := True\<rparr>,
                  out_q := [(127, [msg 1 0, msg 2 0, msg 3 0])],
                  delay_thread := Some [(7, msg 4 9)]\<rparr>"

text \<open>
  A connect race as \<open>accept\<close> sees it: the Pipe found for the peer is not lossy, is our
  own outgoing attempt (CONNECTING), and the peer's connect carries the same
  \<open>connect_seq\<close> and a \<open>global_seq\<close> that is not stale.
\<close>

definition connect_race :: "ceph_msg_connect \<Rightarrow> 'a pipe \<Rightarrow> bool" where
  "connect_race connect existing =
     (\<not> lossy (policy existing) \<and> peer_global_seq existing \<le> c_global_seq connect
      \<and> c_connect_seq connect = connect_seq existing \<and> state existing = STATE_CONNECTING)"

definition example_connect :: ceph_msg_connect where
  "example_connect =
     \<lparr>c_features = 0, c_host_type = 4, c_global_seq = 1, c_connect_seq = 0,
      c_protocol_version = 1, c_authorizer_protocol = 0, c_authorizer_len = 0, c_flags = 0\<rparr>"

text \<open>
  Two peers A (address 10) and B (address 20), each with an outgoing attempt to the other
  and an accepting Pipe for the other's attempt.
\<close>

definition messenger_A :: "nat messenger" where
  "messenger_A = example_messenger\<lparr>my_addr := 10, rank_pipe := Map.empty(20 \<mapsto> 1)\<rparr>"

definition messenger_B :: "nat messenger" where
  "messenger_B = example_messenger\<lparr>my_addr := 20, rank_pipe := Map.empty(10 \<mapsto> 1)\<rparr>"

definition outgoing_A :: "nat pipe" where
  "outgoing_A = example_pipe\<lparr>peer_addr := 20, state := STATE_CONNECTING\<rparr>"

definition outgoing_B :: "nat pipe" where
  "outgoing_B = example_pipe\<lparr>peer_addr := 10, state := STATE_CONNECTING\<rparr>"

definition accepting_A :: "nat pipe" where
  "accepting_A = example_pipe\<lparr>pipe_id := 2, peer_addr := 20, state := STATE_ACCEPTING,
                              connection_state := 2, conn_id := 2\<rparr>"

definition accepting_B :: "nat pipe" where
  "accepting_B = example_pipe\<lparr>pipe_id := 2, peer_addr := 10, state := STATE_ACCEPTING,
                              connection_state := 2, conn_id := 2\<rparr>"

text \<open>
  Modelled from the spec: \<open>Pipe::_send\<close> is defined in Pipe.h, which is not among the
  sources. A submitted message goes to the back of the bucket of its priority, and the
  writer is woken.
\<close>

definition pipe_send :: "message \<Rightarrow> 'a pipe \<Rightarrow> 'a pipe" where
  "pipe_send m p =
     p\<lparr>out_q := q_upd (m_priority m) (\<lambda>l. l @ [m]) (out_q p),
       cond_signals := cond_signals p + 1\<rparr>"

text \<open>
  A Pipe that is replaced with two messages unacknowledged and two queued, a lossy Pipe
  that is replaced, a connect that reconnects (\<open>connect_seq\<close> 1), and the two
  replacements by the accepting Pipe of A.
\<close>

definition replaced_pipe :: "nat pipe" where
  "replaced_pipe =
     example_pipe\<lparr>sent := [msg 1 41, msg 2 42], out_seq := 42, in_seq := 7,
                  out_q := [(255, [msg 3 0]), (127, [msg 4 0])]\<rparr>"

definition replaced_lossy_pipe :: "nat pipe" where
  "replaced_lossy_pipe = example_pipe\<lparr>policy := example_policy\<lparr>lossy := True\<rparr>, in_seq := 7\<rparr>"

definition example_reconnect :: ceph_msg_connect where
  "example_reconnect = example_connect\<lparr>c_connect_seq := 1\<rparr>"

definition example_replacement ::
  "nat messenger \<times> nat pipe \<times> nat pipe \<times> bool \<times> u64" where
  "example_replacement =
     accept_replace example_constants example_reconnect example_messenger replaced_pipe accepting_A"

definition example_lossy_replacement ::
  "nat messenger \<times> nat pipe \<times> nat pipe \<times> bool \<times> u64" where
  "example_lossy_replacement =
     (case accept_existing example_constants 0 example_connect accepting_A example_messenger
             replaced_lossy_pipe of
        (st, w, e) \<Rightarrow> accept_replace example_constants example_connect w e accepting_A)"

text \<open>
  A Pipe that has received up to number 7, a Pipe whose policy has both throttlers, and
  what the socket gives for a message of three bytes whose footer lacks the COMPLETE flag.
\<close>

definition duplicate_pipe :: "nat pipe" where
  "duplicate_pipe = example_pipe\<lparr>in_seq := 7\<rparr>"

definition throttled_pipe :: "nat pipe" where
  "throttled_pipe =
     example_pipe\<lparr>policy := example_policy\<lparr>throttler_bytes := Some 1,
                                            throttler_messages := Some 0\<rparr>\<rparr>"

definition aborted_wire :: wire where
  "aborted_wire =
     \<lparr>w_header = Some (\<lparr>h_seq = 8, h_tid = 0, h_front_len = 1, h_middle_len = 0,
                         h_data_len = 2, h_data_off = 0, h_crc = 5\<rparr>, 5),
      w_front_ok = True, w_middle_ok = True, w_data = [Read_got 2],
      w_footer = Some \<lparr>f_front_crc = 0, f_middle_crc = 0, f_data_crc = 0, f_sig = 0,
                       f_flags = 0\<rparr>,
      w_decoded = None, w_signature_bad = False\<rparr>"

section \<open>Pipe: the steps of its life\<close>

text \<open>
  What changes a Pipe once it exists: the writer takes its next message, the reader
  makes a turn of its loop, a fault is taken, an ack is handled (as the reader does, and
  as \<open>connect\<close> does on a SEQ reply), a message is submitted, a keepalive is asked for,
  the session is reset, the Pipe is stopped, or the Pipe is told to close once \<open>sent\<close>
  is empty. Each step may come in any state of the Pipe. \<open>accept\<close> (with \<open>replace\<close> and
  \<open>discard_requeued_up_to\<close>) and \<open>connect\<close> are not steps: they act on a Pipe whose
  \<open>sent\<close> is empty (a new Pipe, whose writer has not started; a Pipe in state
  CONNECTING, whose \<open>sent\<close> the fault or reset before has emptied), which is where a
  run starts.
  Modelled from the spec: the code that sets the \<open>close_on_empty\<close> flag is not among the
  sources.
\<close>

datatype pipe_event =
  Writer_takes
| Reader_turn nat reader_event
| Fault bool
| Acked u64
| Submit message
| Ask_keepalive
| Session_reset u64
| Stopped
| Close_on_empty

definition pipe_step ::
  "constants \<Rightarrow> pipe_event \<Rightarrow> 'a messenger \<times> 'a pipe \<Rightarrow> 'a messenger \<times> 'a pipe" where
  "pipe_step K ev wp =
     (case ev of
        Writer_takes \<Rightarrow> (fst wp, fst (writer_next (snd wp)))
      | Reader_turn release revt \<Rightarrow> reader_turn K release revt wp
      | Fault onread \<Rightarrow> fault K onread wp
      | Acked seq \<Rightarrow> (fst wp, handle_ack seq (snd wp))
      | Submit m \<Rightarrow> (fst wp, pipe_send m (snd wp))
      | Ask_keepalive \<Rightarrow> (fst wp, send_keepalive (snd wp))
      | Session_reset rnd \<Rightarrow> was_session_reset K rnd wp
      | Stopped \<Rightarrow> (fst wp, stop (snd wp))
      | Close_on_empty \<Rightarrow> (fst wp, (snd wp)\<lparr>close_on_empty := True\<rparr>))"

fun pipe_run ::
  "constants \<Rightarrow> pipe_event list \<Rightarrow> 'a messenger \<times> 'a pipe \<Rightarrow> 'a messenger \<times> 'a pipe" where
  "pipe_run K [] wp = wp"
| "pipe_run K (ev # evs) wp = pipe_run K evs (pipe_step K ev wp)"

text \<open>
  What the steps keep true of \<open>sent\<close>: its messages carry the numbers the writer gave
  last, the run that ends at \<open>out_seq\<close>; and a lossy Pipe that is not closing on empty
  has nothing in \<open>sent\<close>.
\<close>

definition sent_numbered :: "'a pipe \<Rightarrow> bool" where
  "sent_numbered p =
     (seqs_from (out_seq p - of_nat (length (sent p))) (sent p)
      \<and> (sent p = [] \<or> \<not> lossy (policy p) \<or> close_on_empty p))"

text \<open>
  A Pipe with three messages queued and \<open>out_seq = 40\<close>; the same Pipe after the writer
  has taken two of them; a message of priority 300; and a Pipe where the writer has taken
  two messages (numbers 8 and 9) and that message is submitted.
\<close>

definition queued_pipe :: "nat pipe" where
  "queued_pipe = example_pipe\<lparr>out_seq := 40, out_q := [(127, [msg 1 0, msg 2 0, msg 3 0])]\<rparr>"

definition unacked_pipe :: "nat pipe" where
  "unacked_pipe =
     snd (pipe_run example_constants [Writer_takes, Writer_takes] (example_messenger, queued_pipe))"

definition urgent_message :: message where
  "urgent_message = \<lparr>m_id = 3, m_seq = 0, m_priority = 300, m_dispatch_throttle_size = 0\<rparr>"

definition urgent_pipe :: "nat pipe" where
  "urgent_pipe =
     snd (pipe_run example_constants [Writer_takes, Writer_takes, Submit urgent_message]
            (example_messenger,
             example_pipe\<lparr>out_seq := 7, out_q := [(127, [msg 1 0, msg 2 0])]\<rparr>))"

section \<open>Accepter: proofs\<close>

lemma entry_loop_fails_run:
  "list_all accept_fails fs \<Longrightarrow> 0 \<le> e \<Longrightarrow> e + int (length fs) \<le> 4 \<Longrightarrow>
   entry_loop e (fs @ rest) acc = entry_loop (e + int (length fs)) rest acc"
proof (induction fs arbitrary: e)
  case Nil
  then show ?case by simp
next
  case (Cons t fs)
  from Cons.prems have t: "accept_fails t" and fs: "list_all accept_fails fs"
    by simp_all
  from Cons.prems have bound: "e + 1 + int (length fs) \<le> 4" by simp
  from t bound Cons.prems(2)
  have "entry_loop e ((t # fs) @ rest) acc = entry_loop (e + 1) (fs @ rest) acc"
    by (simp add: accept_fails_def reaches_accept_def)
  also have "\<dots> = entry_loop (e + 1 + int (length fs)) rest acc"
    using Cons.IH [OF fs _ bound] Cons.prems(2) by simp
  finally show ?case by (simp add: add.assoc)
qed

text \<open>
  C9 (as the code has it). A successful accept resets the counter of consecutive failures
  to zero. The loop is left on the fifth consecutive failure of \<open>raccept\<close>, since the test
  is \<open>++errors > 4\<close>: after four consecutive failures the loop is still running, with the
  counter at four, and goes on with the turns that follow.
\<close>

theorem accepter_five_failures_terminate:
  "(accept_succeeds t \<longrightarrow>
      entry_loop e (t # rest) acc = entry_loop 0 rest (acc @ [t_sd t])) \<and>
   (list_all accept_fails fs \<and> length fs = 4 \<longrightarrow>
      entry_loop 0 (fs @ rest) acc = entry_loop 4 rest acc) \<and>
   (list_all accept_fails fs \<and> length fs = 5 \<longrightarrow>
      entry_loop 0 (fs @ rest) acc = (True, 5, acc))"
proof (intro conjI impI)
  assume "accept_succeeds t"
  then show "entry_loop e (t # rest) acc = entry_loop 0 rest (acc @ [t_sd t])"
    by (simp add: accept_succeeds_def reaches_accept_def)
next
  assume "list_all accept_fails fs \<and> length fs = 4"
  then show "entry_loop 0 (fs @ rest) acc = entry_loop 4 rest acc"
    using entry_loop_fails_run [of fs 0 rest acc] by simp
next
  assume a: "list_all accept_fails fs \<and> length fs = 5"
  then obtain gs g where fs: "fs = gs @ [g]"
    by (cases fs rule: rev_cases) auto
  with a have gs: "list_all accept_fails gs" "length gs = 4" and g: "accept_fails g"
    by simp_all
  have "entry_loop 0 (fs @ rest) acc = entry_loop 4 (g # rest) acc"
    using entry_loop_fails_run [of gs 0 "g # rest" acc] gs by (simp add: fs)
  also have "\<dots> = (True, 5, acc)"
    using g by (simp add: accept_fails_def reaches_accept_def)
  finally show "entry_loop 0 (fs @ rest) acc = (True, 5, acc)" .
qed

theorem accepter_five_failures_terminate_witness:
  "entry_loop 3 (good_turn 7 # [failing_turn]) [] = entry_loop 0 [failing_turn] [7] \<and>
   entry_loop 0 (replicate 4 failing_turn @ [good_turn 9]) [] = entry_loop 4 [good_turn 9] [] \<and>
   entry_loop 0 (replicate 5 failing_turn @ [good_turn 9]) [] = (True, 5, [])"
proof -
  have ok: "accept_succeeds (good_turn 7)"
    by (simp add: accept_succeeds_def reaches_accept_def good_turn_def)
  have f: "accept_fails failing_turn"
    by (simp add: accept_fails_def reaches_accept_def failing_turn_def)
  have f4: "list_all accept_fails (replicate 4 failing_turn) \<and> length (replicate 4 failing_turn) = 4"
    using f by (simp add: list_all_iff)
  have f5: "list_all accept_fails (replicate 5 failing_turn) \<and> length (replicate 5 failing_turn) = 5"
    using f by (simp add: list_all_iff)
  have 1: "entry_loop 3 (good_turn 7 # [failing_turn]) [] = entry_loop 0 [failing_turn] [7]"
    using accepter_five_failures_terminate [of "good_turn 7" 3 "[failing_turn]" "[]" "[]"] ok
    by (simp add: good_turn_def)
  have 2: "entry_loop 0 (replicate 4 failing_turn @ [good_turn 9]) [] = entry_loop 4 [good_turn 9] []"
    using accepter_five_failures_terminate
      [of "good_turn 7" 0 "[good_turn 9]" "[]" "replicate 4 failing_turn"] f4
    by blast
  have 3: "entry_loop 0 (replicate 5 failing_turn @ [good_turn 9]) [] = (True, 5, [])"
    using accepter_five_failures_terminate
      [of "good_turn 7" 0 "[good_turn 9]" "[]" "replicate 5 failing_turn"] f5
    by blast
  from 1 2 3 show ?thesis by blast
qed

text \<open>
  C9 as the specification words it fails: after four consecutive failures of \<open>raccept\<close>
  the loop has not been left, and a connection that arrives next is still accepted.
\<close>

theorem accepter_four_failures_counterexample:
  "entry (replicate 4 failing_turn) = (False, 4, []) \<and>
   entry (replicate 4 failing_turn @ [good_turn 7]) = (False, 0, [7])"
  by (simp add: entry_def failing_turn_def good_turn_def numeral_eq_Suc)

section \<open>Pipe: proofs about the queue and the sequence numbers\<close>

lemma requeue_loop_eq:
  "requeue_loop snt rq oseq = (snt @ rq, oseq - of_nat (length snt))"
proof (induction snt rq oseq rule: requeue_loop.induct)
  case (1 snt rq oseq)
  show ?case
  proof (cases "snt = []")
    case True
    then show ?thesis by (simp add: requeue_loop.simps)
  next
    case False
    then have "requeue_loop snt rq oseq = requeue_loop (butlast snt) (last snt # rq) (oseq - 1)"
      by (subst requeue_loop.simps) simp
    also have "\<dots> = (butlast snt @ last snt # rq, oseq - 1 - of_nat (length (butlast snt)))"
      using "1.IH" [OF False] .
    also have "butlast snt @ last snt # rq = snt @ rq"
      using False by (metis append.assoc append_Cons append_Nil append_butlast_last_id)
    also have "oseq - 1 - of_nat (length (butlast snt)) = oseq - of_nat (length snt)"
    proof -
      from False have "length snt = Suc (length (butlast snt))" by simp
      then show ?thesis by simp
    qed
    finally show ?thesis .
  qed
qed

lemma discard_loop_eq:
  "discard_loop seq rq oseq =
     (dropWhile (discardable seq) rq, oseq + of_nat (length (takeWhile (discardable seq) rq)))"
  by (induction rq arbitrary: oseq) (auto simp: discardable_def not_less)

lemma q_get_q_upd_same: "q_get k (q_upd k f q) = f (q_get k q)"
  by (simp add: q_get_def q_upd_def update_conv')

lemma q_get_q_upd_other: "k' \<noteq> k \<Longrightarrow> q_get k' (q_upd k f q) = q_get k' q"
  by (simp add: q_get_def q_upd_def update_conv')

lemma keys_q_upd: "fst ` set (q_upd k f q) = insert k (fst ` set q)"
  by (simp add: q_upd_def dom_update)

lemma q_upd_nonempty: "q_upd k f q \<noteq> []"
  using keys_q_upd [of k f q] by auto

lemma q_get_nonempty_key: "q_get k q \<noteq> [] \<Longrightarrow> k \<in> fst ` set q"
  by (auto simp: q_get_def split: option.splits dest: map_of_SomeD intro: rev_image_eqI)

lemma top_key_eq:
  "k \<in> fst ` set q \<Longrightarrow> \<forall>k' \<in> fst ` set q. k' \<le> k \<Longrightarrow> top_key q = k"
  unfolding top_key_def by (intro Max_eqI) auto

lemma get_next_outgoing_top:
  assumes "q_get k q = m # ms" and "\<forall>k' \<in> fst ` set q. k' \<le> k"
  shows "get_next_outgoing q =
           (Some m, if ms = [] then AList.delete k q else AList.update k ms q)"
proof -
  from assms(1) have "k \<in> fst ` set q" by (intro q_get_nonempty_key) simp
  with assms(2) have t: "top_key q = k" by (simp add: top_key_eq)
  from \<open>k \<in> fst ` set q\<close> have "q \<noteq> []" by auto
  with t assms(1) show ?thesis by (subst get_next_outgoing.simps) simp
qed

lemma seqs_from_dropWhile:
  "seqs_from s ms \<Longrightarrow>
   seqs_from (s + of_nat (length (takeWhile P ms))) (dropWhile P ms)"
proof (induction ms arbitrary: s)
  case Nil
  then show ?case by simp
next
  case (Cons m ms)
  show ?case
  proof (cases "P m")
    case True
    from Cons.prems have "seqs_from (s + 1) ms" by simp
    then have "seqs_from (s + 1 + of_nat (length (takeWhile P ms))) (dropWhile P ms)"
      by (rule Cons.IH)
    with True show ?thesis by (simp add: add.assoc)
  next
    case False
    with Cons.prems show ?thesis by simp
  qed
qed

lemma writer_drain_front:
  "seqs_from (out_seq p) ms \<Longrightarrow> q_get k (out_q p) = ms @ rest \<Longrightarrow>
   \<forall>k' \<in> fst ` set (out_q p). k' \<le> k \<Longrightarrow>
   snd (writer_drain (length ms) p) = ms"
proof (induction ms arbitrary: p)
  case Nil
  then show ?case by simp
next
  case (Cons m ms)
  let ?p' = "fst (writer_next p)"
  from Cons.prems have m: "m\<lparr>m_seq := out_seq p + 1\<rparr> = m" by simp
  from Cons.prems(2) have g: "q_get k (out_q p) = m # (ms @ rest)" by simp
  note gn = get_next_outgoing_top [OF g Cons.prems(3)]
  from m gn have wn: "snd (writer_next p) = Some m"
    by (simp add: writer_next_def Let_def)
  from gn have os: "out_seq ?p' = out_seq p + 1"
    by (simp add: writer_next_def Let_def)
  from gn have oq: "out_q ?p' = (if ms @ rest = [] then AList.delete k (out_q p)
                                  else AList.update k (ms @ rest) (out_q p))"
    by (simp add: writer_next_def Let_def)
  have rec: "snd (writer_drain (length ms) ?p') = ms"
  proof (cases "ms = []")
    case True
    then show ?thesis by simp
  next
    case False
    with oq have oq': "out_q ?p' = AList.update k (ms @ rest) (out_q p)" by simp
    then have "q_get k (out_q ?p') = ms @ rest"
      by (simp add: q_get_def update_conv')
    moreover from Cons.prems os have "seqs_from (out_seq ?p') ms" by simp
    moreover from oq' Cons.prems(3) have "\<forall>k' \<in> fst ` set (out_q ?p'). k' \<le> k"
      by (simp add: dom_update)
    ultimately show ?thesis by (intro Cons.IH)
  qed
  obtain p1 r where w: "writer_next p = (p1, r)" by (cases "writer_next p")
  with wn rec show ?case by simp
qed

lemma dropWhile_append_keep:
  "list_all (\<lambda>m. \<not> P m) rest \<Longrightarrow>
   dropWhile P (ms @ rest) = dropWhile P ms @ rest \<and>
   takeWhile P (ms @ rest) = takeWhile P ms"
proof (induction ms)
  case Nil
  then show ?case by (cases rest) simp_all
next
  case (Cons m ms)
  then show ?case by simp
qed

text \<open>
  C8. \<open>discard_requeued_up_to seq\<close> drops messages from the front of
  \<open>out_q[CEPH_MSG_PRIO_HIGHEST]\<close> exactly while the front message has a sequence number
  in \<open>(0, seq]\<close>, and adds one to \<open>out_seq\<close> for each message dropped; the first
  message with sequence number 0 or above \<open>seq\<close> stays, with everything behind it, and
  nothing else of the Pipe changes. When the front of the bucket is a requeued run \<open>ms\<close>
  numbered from \<open>out_seq + 1\<close>, followed by messages never sent (number 0), what is
  left of the run is numbered from the new \<open>out_seq + 1\<close>: the writer's \<open>++out_seq\<close>
  gives the next message the number it had.
\<close>

theorem discard_requeued_up_to_drops_acked_front:
  "discard_requeued_up_to K seq p =
     p\<lparr>out_q := q_upd (CEPH_MSG_PRIO_HIGHEST K)
                  (\<lambda>_. dropWhile (discardable seq) (q_get (CEPH_MSG_PRIO_HIGHEST K) (out_q p)))
                  (out_q p),
       out_seq := out_seq p
          + of_nat (length (takeWhile (discardable seq) (q_get (CEPH_MSG_PRIO_HIGHEST K) (out_q p))))\<rparr>
   \<and> q_get (CEPH_MSG_PRIO_HIGHEST K) (out_q (discard_requeued_up_to K seq p)) =
       dropWhile (discardable seq) (q_get (CEPH_MSG_PRIO_HIGHEST K) (out_q p))
   \<and> (seqs_from (out_seq p) ms \<and> q_get (CEPH_MSG_PRIO_HIGHEST K) (out_q p) = ms @ rest
        \<and> list_all (\<lambda>m. m_seq m = 0) rest \<longrightarrow>
      q_get (CEPH_MSG_PRIO_HIGHEST K) (out_q (discard_requeued_up_to K seq p)) =
        dropWhile (discardable seq) ms @ rest
      \<and> seqs_from (out_seq (discard_requeued_up_to K seq p)) (dropWhile (discardable seq) ms))"
proof (intro conjI impI)
  show eq: "discard_requeued_up_to K seq p =
     p\<lparr>out_q := q_upd (CEPH_MSG_PRIO_HIGHEST K)
                  (\<lambda>_. dropWhile (discardable seq) (q_get (CEPH_MSG_PRIO_HIGHEST K) (out_q p)))
                  (out_q p),
       out_seq := out_seq p
          + of_nat (length (takeWhile (discardable seq) (q_get (CEPH_MSG_PRIO_HIGHEST K) (out_q p))))\<rparr>"
    by (simp add: discard_requeued_up_to_def discard_loop_eq)
  show g: "q_get (CEPH_MSG_PRIO_HIGHEST K) (out_q (discard_requeued_up_to K seq p)) =
       dropWhile (discardable seq) (q_get (CEPH_MSG_PRIO_HIGHEST K) (out_q p))"
    by (simp add: eq q_get_q_upd_same)
  assume a: "seqs_from (out_seq p) ms \<and> q_get (CEPH_MSG_PRIO_HIGHEST K) (out_q p) = ms @ rest
        \<and> list_all (\<lambda>m. m_seq m = 0) rest"
  then have "list_all (\<lambda>m. \<not> discardable seq m) rest"
    by (simp add: list_all_iff discardable_def)
  note k = dropWhile_append_keep [OF this, of ms]
  from a k show "q_get (CEPH_MSG_PRIO_HIGHEST K) (out_q (discard_requeued_up_to K seq p)) =
        dropWhile (discardable seq) ms @ rest"
    by (simp add: g)
  have "out_seq (discard_requeued_up_to K seq p) =
          out_seq p + of_nat (length (takeWhile (discardable seq) ms))"
    using a k by (simp add: eq)
  with a show "seqs_from (out_seq (discard_requeued_up_to K seq p)) (dropWhile (discardable seq) ms)"
    by (simp add: seqs_from_dropWhile)
qed

theorem discard_requeued_up_to_drops_acked_front_witness:
  "q_get 255 (out_q (discard_requeued_up_to example_constants 4 requeued_pipe)) = [msg 3 5, msg 4 0]
   \<and> out_seq (discard_requeued_up_to example_constants 4 requeued_pipe) = 4
   \<and> seqs_from (out_seq (discard_requeued_up_to example_constants 4 requeued_pipe)) [msg 3 5]"
proof -
  let ?p = "discard_requeued_up_to example_constants 4 requeued_pipe"
  have hp: "CEPH_MSG_PRIO_HIGHEST example_constants = 255"
    by (simp add: example_constants_def)
  have h: "seqs_from (out_seq requeued_pipe) [msg 1 3, msg 2 4, msg 3 5]
        \<and> q_get (CEPH_MSG_PRIO_HIGHEST example_constants) (out_q requeued_pipe)
            = [msg 1 3, msg 2 4, msg 3 5] @ [msg 4 0]
        \<and> list_all (\<lambda>m. m_seq m = 0) [msg 4 0]"
    by (simp add: requeued_pipe_def example_constants_def q_get_def msg_def)
  have d: "dropWhile (discardable 4) [msg 1 3, msg 2 4, msg 3 5] = [msg 3 5]"
    by (simp add: discardable_def msg_def)
  from discard_requeued_up_to_drops_acked_front
         [of example_constants 4 requeued_pipe "[msg 1 3, msg 2 4, msg 3 5]" "[msg 4 0]"] h
  have "q_get (CEPH_MSG_PRIO_HIGHEST example_constants) (out_q ?p) =
          dropWhile (discardable 4) [msg 1 3, msg 2 4, msg 3 5] @ [msg 4 0]"
    and "seqs_from (out_seq ?p) (dropWhile (discardable 4) [msg 1 3, msg 2 4, msg 3 5])"
    by blast+
  then have g: "q_get 255 (out_q ?p) = [msg 3 5, msg 4 0]"
    and sf: "seqs_from (out_seq ?p) [msg 3 5]"
    by (simp_all only: d hp append_Cons append_Nil)
  from sf have "out_seq ?p = 4" by (simp add: msg_def)
  with g sf show ?thesis by blast
qed

lemma keys_requeue_sent:
  "fst ` set (out_q (requeue_sent K p)) =
     (if sent p = [] then fst ` set (out_q p)
      else insert (CEPH_MSG_PRIO_HIGHEST K) (fst ` set (out_q p)))"
  by (simp add: requeue_sent_def Let_def keys_q_upd)

section \<open>Pipe: proofs about fault\<close>

lemma delay_flush_loop_config:
  "ms_initial_backoff (delay_flush_loop cid dq w) = ms_initial_backoff w \<and>
   ms_max_backoff (delay_flush_loop cid dq w) = ms_max_backoff w"
  by (induction dq arbitrary: w) (auto simp: dq_enqueue_def)

lemma delay_flush_keeps:
  "state (snd (delay_flush (w, p))) = state p \<and>
   policy (snd (delay_flush (w, p))) = policy p \<and>
   backoff (snd (delay_flush (w, p))) = backoff p \<and>
   waited (snd (delay_flush (w, p))) = waited p \<and>
   out_q (snd (delay_flush (w, p))) = out_q p \<and>
   sent (snd (delay_flush (w, p))) = sent p \<and>
   out_seq (snd (delay_flush (w, p))) = out_seq p \<and>
   keepalive (snd (delay_flush (w, p))) = keepalive p \<and>
   ms_initial_backoff (fst (delay_flush (w, p))) = ms_initial_backoff w \<and>
   ms_max_backoff (fst (delay_flush (w, p))) = ms_max_backoff w"
  by (simp add: delay_flush_def delay_flush_loop_config split: option.splits)

lemma requeue_sent_keeps:
  "state (requeue_sent K p) = state p \<and>
   policy (requeue_sent K p) = policy p \<and>
   backoff (requeue_sent K p) = backoff p \<and>
   waited (requeue_sent K p) = waited p \<and>
   keepalive (requeue_sent K p) = keepalive p"
  by (simp add: requeue_sent_def Let_def)

lemma requeue_sent_is_queued: "is_queued p \<Longrightarrow> is_queued (requeue_sent K p)"
  by (auto simp: is_queued_def requeue_sent_def Let_def q_upd_def
      dest: arg_cong [where f = "\<lambda>q. fst ` set q"] simp: dom_update)

lemma fault_connecting_step:
  assumes "state p = STATE_CONNECTING" and "\<not> standby (policy p) \<or> is_queued p"
  shows "state (snd (fault K False (w, p))) = STATE_CONNECTING"
    and "\<not> standby (policy (snd (fault K False (w, p)))) \<or> is_queued (snd (fault K False (w, p)))"
    and "ms_initial_backoff (fst (fault K False (w, p))) = ms_initial_backoff w"
    and "ms_max_backoff (fst (fault K False (w, p))) = ms_max_backoff w"
    and "backoff (snd (fault K False (w, p))) =
           (if backoff p = 0 then ms_initial_backoff w
            else min (utime_add K (backoff p) (backoff p)) (ms_max_backoff w))"
    and "waited (snd (fault K False (w, p))) =
           (if backoff p = 0 then waited p else waited p @ [backoff p])"
proof -
  let ?p1 = "shutdown_socket (p\<lparr>cond_signals := cond_signals p + 1\<rparr>)"
  let ?wp2 = "delay_flush (w, ?p1)"
  let ?p3 = "requeue_sent K (snd ?wp2)"
  have f: "fault K False (w, p) = (fst ?wp2, fault_retry K (fst ?wp2) ?p3)"
    using assms(1) by (simp add: fault_def Let_def shutdown_socket_def)
  have p1: "state ?p1 = STATE_CONNECTING" "policy ?p1 = policy p" "backoff ?p1 = backoff p"
    "waited ?p1 = waited p" "is_queued ?p1 = is_queued p"
    using assms(1) by (simp_all add: shutdown_socket_def is_queued_def)
  have p2: "state (snd ?wp2) = STATE_CONNECTING" "policy (snd ?wp2) = policy p"
    "backoff (snd ?wp2) = backoff p" "waited (snd ?wp2) = waited p"
    "is_queued (snd ?wp2) = is_queued p"
    "ms_initial_backoff (fst ?wp2) = ms_initial_backoff w"
    "ms_max_backoff (fst ?wp2) = ms_max_backoff w"
    using p1 delay_flush_keeps [of w ?p1] by (simp_all add: is_queued_def)
  have p3: "state ?p3 = STATE_CONNECTING" "policy ?p3 = policy p"
    "backoff ?p3 = backoff p" "waited ?p3 = waited p"
    "\<not> standby (policy ?p3) \<or> is_queued ?p3"
    using p2 assms(2) requeue_sent_keeps [of K "snd ?wp2"]
      requeue_sent_is_queued [of "snd ?wp2" K] by auto
  from p3(5) have nq: "\<not> (standby (policy ?p3) \<and> \<not> is_queued ?p3)" by blast
  show "state (snd (fault K False (w, p))) = STATE_CONNECTING"
    unfolding f using p3 nq by (simp add: fault_retry_def)
  show "\<not> standby (policy (snd (fault K False (w, p)))) \<or> is_queued (snd (fault K False (w, p)))"
    unfolding f using p3 nq by (auto simp: fault_retry_def is_queued_def)
  show "ms_initial_backoff (fst (fault K False (w, p))) = ms_initial_backoff w"
    unfolding f using p2 by simp
  show "ms_max_backoff (fst (fault K False (w, p))) = ms_max_backoff w"
    unfolding f using p2 by simp
  show "backoff (snd (fault K False (w, p))) =
           (if backoff p = 0 then ms_initial_backoff w
            else min (utime_add K (backoff p) (backoff p)) (ms_max_backoff w))"
    unfolding f using p3 p2 nq by (auto simp: fault_retry_def min_def)
  show "waited (snd (fault K False (w, p))) =
           (if backoff p = 0 then waited p else waited p @ [backoff p])"
    unfolding f using p3 nq by (auto simp: fault_retry_def)
qed

lemma double_clamp:
  fixes i m :: nat
  shows "min (min (i * 2 ^ n) m + min (i * 2 ^ n) m) m = min (i * 2 ^ Suc n) m"
  by (simp add: min_def)

lemma fault_run:
  assumes "state p = STATE_CONNECTING" and "backoff p = 0"
    and "\<not> standby (policy p) \<or> is_queued p"
    and "0 < ms_initial_backoff w" and "ms_initial_backoff w \<le> ms_max_backoff w"
    and "2 * ms_max_backoff w < UTIME_WRAP K"
  shows "state (snd ((fault K False ^^ Suc n) (w, p))) = STATE_CONNECTING
    \<and> (\<not> standby (policy (snd ((fault K False ^^ Suc n) (w, p))))
         \<or> is_queued (snd ((fault K False ^^ Suc n) (w, p))))
    \<and> ms_initial_backoff (fst ((fault K False ^^ Suc n) (w, p))) = ms_initial_backoff w
    \<and> ms_max_backoff (fst ((fault K False ^^ Suc n) (w, p))) = ms_max_backoff w
    \<and> backoff (snd ((fault K False ^^ Suc n) (w, p))) =
        min (ms_initial_backoff w * 2 ^ n) (ms_max_backoff w)
    \<and> waited (snd ((fault K False ^^ Suc n) (w, p))) =
        waited p @ map (\<lambda>i. min (ms_initial_backoff w * 2 ^ i) (ms_max_backoff w)) [0..<n]"
proof (induction n)
  case 0
  show ?case
    using fault_connecting_step [OF assms(1) assms(3), of K w] assms(2) assms(5)
    by simp
next
  case (Suc n)
  let ?wp = "(fault K False ^^ Suc n) (w, p)"
  have nz: "backoff (snd ?wp) \<noteq> 0"
    using Suc assms(4) assms(5) by (simp add: min_def)
  have step: "(fault K False ^^ Suc (Suc n)) (w, p) = fault K False (fst ?wp, snd ?wp)"
    by simp
  from Suc have st: "state (snd ?wp) = STATE_CONNECTING"
    and q: "\<not> standby (policy (snd ?wp)) \<or> is_queued (snd ?wp)"
    by blast+
  note s = fault_connecting_step [OF st q, of K "fst ?wp"]
  have "min (ms_initial_backoff w * 2 ^ n) (ms_max_backoff w)
          + min (ms_initial_backoff w * 2 ^ n) (ms_max_backoff w) < UTIME_WRAP K"
    using assms(6) by (simp add: min_def)
  then have dbl: "utime_add K (min (ms_initial_backoff w * 2 ^ n) (ms_max_backoff w))
                    (min (ms_initial_backoff w * 2 ^ n) (ms_max_backoff w))
      = min (ms_initial_backoff w * 2 ^ n) (ms_max_backoff w)
        + min (ms_initial_backoff w * 2 ^ n) (ms_max_backoff w)"
    by (simp add: utime_add_def)
  show ?case
    unfolding step using s Suc nz
    by (simp add: dbl double_clamp del: funpow.simps)
qed

text \<open>
  C6 (as the code has it). Take a run of faults of a Pipe in state CONNECTING that are
  not reported by the reader, where the Pipe does not go to standby (its policy has no
  \<open>standby\<close>, or something is queued), \<open>backoff\<close> is zero when the run starts,
  \<open>0 < ms_initial_backoff \<le> ms_max_backoff\<close>, and twice \<open>ms_max_backoff\<close> is below the
  bound at which \<open>utime_t\<close> wraps around. The first fault sets \<open>backoff\<close> to
  \<open>ms_initial_backoff\<close> without waiting. Every later fault waits for the current
  \<open>backoff\<close>, then doubles it and clamps it at \<open>ms_max_backoff\<close>: after \<open>n + 1\<close> faults
  the Pipe is still CONNECTING, \<open>backoff\<close> is \<open>min (ms_initial_backoff * 2 ^ n)
  ms_max_backoff\<close>, at most \<open>ms_max_backoff\<close>, and the \<open>n\<close> waits were the doubling
  sequence clamped at \<open>ms_max_backoff\<close>.
\<close>

theorem connecting_faults_double_backoff:
  assumes "state p = STATE_CONNECTING" and "backoff p = 0"
    and "\<not> standby (policy p) \<or> is_queued p"
    and "0 < ms_initial_backoff w" and "ms_initial_backoff w \<le> ms_max_backoff w"
    and "2 * ms_max_backoff w < UTIME_WRAP K"
  shows "backoff (snd (fault K False (w, p))) = ms_initial_backoff w
    \<and> waited (snd (fault K False (w, p))) = waited p
    \<and> state (snd ((fault K False ^^ Suc n) (w, p))) = STATE_CONNECTING
    \<and> backoff (snd ((fault K False ^^ Suc n) (w, p))) =
        min (ms_initial_backoff w * 2 ^ n) (ms_max_backoff w)
    \<and> waited (snd ((fault K False ^^ Suc n) (w, p))) =
        waited p @ map (\<lambda>i. min (ms_initial_backoff w * 2 ^ i) (ms_max_backoff w)) [0..<n]
    \<and> backoff (snd ((fault K False ^^ Suc n) (w, p))) \<le> ms_max_backoff w"
proof -
  note r = fault_run [OF assms, where n = n]
  note s = fault_connecting_step [OF assms(1) assms(3), where K = K and w = w]
  from s assms(2) have "backoff (snd (fault K False (w, p))) = ms_initial_backoff w"
    and "waited (snd (fault K False (w, p))) = waited p"
    by simp_all
  moreover from r have "backoff (snd ((fault K False ^^ Suc n) (w, p))) \<le> ms_max_backoff w"
    by simp
  ultimately show ?thesis using r by blast
qed

theorem connecting_faults_double_backoff_witness:
  "backoff (snd (fault example_constants False (example_messenger, connecting_pipe))) = 2
   \<and> backoff (snd ((fault example_constants False ^^ Suc 4) (example_messenger, connecting_pipe))) = 15
   \<and> waited (snd ((fault example_constants False ^^ Suc 4) (example_messenger, connecting_pipe)))
       = [2, 4, 8, 15]"
proof -
  have h: "state connecting_pipe = STATE_CONNECTING" "backoff connecting_pipe = 0"
    "\<not> standby (policy connecting_pipe) \<or> is_queued connecting_pipe"
    "0 < ms_initial_backoff example_messenger"
    "ms_initial_backoff example_messenger \<le> ms_max_backoff example_messenger"
    "2 * ms_max_backoff example_messenger < UTIME_WRAP example_constants"
    by (simp_all add: connecting_pipe_def example_pipe_def example_policy_def
        example_messenger_def example_constants_def is_queued_def)
  have c: "ms_initial_backoff example_messenger = 2" "ms_max_backoff example_messenger = 15"
    "waited connecting_pipe = []"
    by (simp_all add: example_messenger_def connecting_pipe_def example_pipe_def)
  have m: "map (\<lambda>i. min (2 * 2 ^ i) 15) [0..<4] = [2, 4, 8, 15::nat]"
    and b: "min (2 * 2 ^ 4) 15 = (15::nat)"
    by code_simp+
  from connecting_faults_double_backoff [OF h, where n = 4]
  show ?thesis by (simp only: c m b append_Nil)
qed

text \<open>
  C6 as the specification words it fails. With \<open>ms_initial_backoff = 20\<close> above
  \<open>ms_max_backoff = 15\<close>, the first fault in state CONNECTING leaves \<open>backoff\<close> at 20.
  With a \<open>standby\<close> policy and nothing queued, the first fault in state CONNECTING sends
  the Pipe to STANDBY and leaves \<open>backoff\<close> at zero, not at \<open>ms_initial_backoff\<close>.
  With both settings at \<open>2^31\<close> seconds, the second fault waits \<open>2^31\<close> seconds and the
  doubled \<open>backoff\<close> wraps around to zero.
\<close>

theorem connecting_faults_backoff_counterexample:
  "state connecting_pipe = STATE_CONNECTING
   \<and> backoff (snd (fault example_constants False
        (example_messenger\<lparr>ms_initial_backoff := 20\<rparr>, connecting_pipe))) = 20
   \<and> ms_max_backoff (example_messenger\<lparr>ms_initial_backoff := 20\<rparr>) = 15
   \<and> state idle_standby_pipe = STATE_CONNECTING
   \<and> state (snd (fault example_constants False (example_messenger, idle_standby_pipe)))
        = STATE_STANDBY
   \<and> backoff (snd (fault example_constants False (example_messenger, idle_standby_pipe))) = 0
   \<and> ms_initial_backoff example_messenger = 2
   \<and> backoff (snd (fault example_constants False (slow_messenger, connecting_pipe)))
        = 2147483648000000000
   \<and> waited (snd (fault example_constants False
        (fault example_constants False (slow_messenger, connecting_pipe))))
        = [2147483648000000000]
   \<and> backoff (snd (fault example_constants False
        (fault example_constants False (slow_messenger, connecting_pipe)))) = 0"
  by (simp add: connecting_pipe_def idle_standby_pipe_def example_pipe_def example_policy_def
      example_messenger_def slow_messenger_def example_constants_def fault_def fault_retry_def
      utime_add_def Let_def shutdown_socket_def delay_flush_def requeue_sent_def is_queued_def)

text \<open>
  C10. A fault reported by the reader (\<open>onread\<close> true) while the Pipe is CONNECTING
  returns right after \<open>cond.Signal()\<close>: the messenger is unchanged and so is the Pipe
  but for the count of signals; in particular \<open>state\<close>, \<open>backoff\<close>, \<open>out_q\<close>, \<open>sent\<close>
  and the socket (\<open>sd\<close>, not shut down by this call) are what they were, and the Pipe
  did not wait.
\<close>

theorem reader_fault_while_connecting_is_noop:
  assumes "state p = STATE_CONNECTING"
  shows "fault K True (w, p) = (w, p\<lparr>cond_signals := cond_signals p + 1\<rparr>)
    \<and> state (snd (fault K True (w, p))) = STATE_CONNECTING
    \<and> backoff (snd (fault K True (w, p))) = backoff p
    \<and> out_q (snd (fault K True (w, p))) = out_q p
    \<and> sent (snd (fault K True (w, p))) = sent p
    \<and> sd (snd (fault K True (w, p))) = sd p
    \<and> socket_shutdown (snd (fault K True (w, p))) = socket_shutdown p
    \<and> waited (snd (fault K True (w, p))) = waited p"
  using assms by (simp add: fault_def Let_def)

theorem reader_fault_while_connecting_is_noop_witness:
  "fault example_constants True (example_messenger, connecting_pipe) =
     (example_messenger, connecting_pipe\<lparr>cond_signals := 1\<rparr>)
   \<and> socket_shutdown (snd (fault example_constants True (example_messenger, connecting_pipe))) = False
   \<and> socket_shutdown (snd (fault example_constants False (example_messenger, connecting_pipe))) = True"
proof -
  have h: "state connecting_pipe = STATE_CONNECTING"
    by (simp add: connecting_pipe_def)
  have c: "cond_signals connecting_pipe + 1 = 1" "socket_shutdown connecting_pipe = False"
    by (simp_all add: connecting_pipe_def example_pipe_def)
  have f: "socket_shutdown (snd (fault example_constants False (example_messenger, connecting_pipe)))
             = True"
    by (simp add: connecting_pipe_def example_pipe_def example_policy_def
        example_messenger_def example_constants_def fault_def fault_retry_def Let_def
        shutdown_socket_def delay_flush_def requeue_sent_def is_queued_def)
  note t = reader_fault_while_connecting_is_noop
             [OF h, where K = example_constants and w = example_messenger]
  from t have "fault example_constants True (example_messenger, connecting_pipe) =
     (example_messenger, connecting_pipe\<lparr>cond_signals := cond_signals connecting_pipe + 1\<rparr>)"
    by blast
  then have a: "fault example_constants True (example_messenger, connecting_pipe) =
     (example_messenger, connecting_pipe\<lparr>cond_signals := 1\<rparr>)"
    by (simp only: c)
  from t have "socket_shutdown (snd (fault example_constants True (example_messenger, connecting_pipe)))
      = socket_shutdown connecting_pipe"
    by blast
  then have b: "socket_shutdown (snd (fault example_constants True (example_messenger, connecting_pipe)))
      = False"
    by (simp only: c)
  from a b f show ?thesis by blast
qed

lemma delay_discard_loop_keeps:
  "rank_pipe (delay_discard_loop dq w) = rank_pipe w \<and>
   conns (delay_discard_loop dq w) = conns w \<and>
   notifications (delay_discard_loop dq w) = notifications w \<and>
   in_q (delay_discard_loop dq w) = in_q w"
  by (induction dq arbitrary: w) (auto simp: dispatch_throttle_release_def)

text \<open>
  C5. A fault of a Pipe with a lossy policy that is not CONNECTING, CLOSED or CLOSING
  is terminal: the Pipe is stopped (state CLOSED), the registry no longer maps its peer
  address to it, what the dispatch queue held for its connection id is discarded, its
  delay queue, \<open>out_q\<close> and \<open>sent\<close> are empty, its Connection no longer points to it,
  exactly one \<open>queue_reset\<close> is added to the notifications, and no reconnection is
  attempted: \<open>connect_seq\<close> and \<open>backoff\<close> are untouched, the Pipe does not wait, and a
  further fault leaves it CLOSED.
\<close>

theorem lossy_fault_is_terminal:
  assumes "lossy (policy p)"
    and "state p \<noteq> STATE_CONNECTING" and "state p \<noteq> STATE_CLOSED" and "state p \<noteq> STATE_CLOSING"
  shows "state (snd (fault K onread (w, p))) = STATE_CLOSED
    \<and> state_closed (snd (fault K onread (w, p)))
    \<and> rank_pipe (fst (fault K onread (w, p))) (peer_addr p) \<noteq> Some (pipe_id p)
    \<and> delay_thread (snd (fault K onread (w, p))) = map_option (\<lambda>dq. []) (delay_thread p)
    \<and> out_q (snd (fault K onread (w, p))) = []
    \<and> sent (snd (fault K onread (w, p))) = []
    \<and> in_q (fst (fault K onread (w, p))) = filter (\<lambda>(m, prio, c). c \<noteq> conn_id p) (in_q w)
    \<and> con_pipe (conns (fst (fault K onread (w, p))) (connection_state p)) \<noteq> Some (pipe_id p)
    \<and> notifications (fst (fault K onread (w, p))) =
        notifications w @ [Queue_reset (connection_state p)]
    \<and> connect_seq (snd (fault K onread (w, p))) = connect_seq p
    \<and> backoff (snd (fault K onread (w, p))) = backoff p
    \<and> waited (snd (fault K onread (w, p))) = waited p
    \<and> state (snd (fault K again (fault K onread (w, p)))) = STATE_CLOSED"
proof -
  let ?p1 = "shutdown_socket (p\<lparr>cond_signals := cond_signals p + 1\<rparr>)"
  have f: "fault K onread (w, p) = fault_lossy (w, ?p1)"
    using assms by (simp add: fault_def Let_def shutdown_socket_def)
  have st: "state (snd (fault_lossy (w, ?p1))) = STATE_CLOSED"
    by (simp add: fault_lossy_def Let_def stop_def shutdown_socket_def discard_out_queue_def
        delay_discard_def split: option.splits)
  have rest: "state_closed (snd (fault_lossy (w, ?p1)))
    \<and> rank_pipe (fst (fault_lossy (w, ?p1))) (peer_addr p) \<noteq> Some (pipe_id p)
    \<and> delay_thread (snd (fault_lossy (w, ?p1))) = map_option (\<lambda>dq. []) (delay_thread p)
    \<and> out_q (snd (fault_lossy (w, ?p1))) = []
    \<and> sent (snd (fault_lossy (w, ?p1))) = []
    \<and> in_q (fst (fault_lossy (w, ?p1))) = filter (\<lambda>(m, prio, c). c \<noteq> conn_id p) (in_q w)
    \<and> con_pipe (conns (fst (fault_lossy (w, ?p1))) (connection_state p)) \<noteq> Some (pipe_id p)
    \<and> notifications (fst (fault_lossy (w, ?p1))) =
        notifications w @ [Queue_reset (connection_state p)]
    \<and> connect_seq (snd (fault_lossy (w, ?p1))) = connect_seq p
    \<and> backoff (snd (fault_lossy (w, ?p1))) = backoff p
    \<and> waited (snd (fault_lossy (w, ?p1))) = waited p"
    by (simp add: fault_lossy_def Let_def stop_def shutdown_socket_def discard_out_queue_def
        delay_discard_def delay_discard_loop_keeps unregister_pipe_def dq_discard_queue_def
        clear_pipe_def dq_notify_def split: option.splits)
  have again: "state (snd (fault K again (fault_lossy (w, ?p1)))) = STATE_CLOSED"
    using st by (simp add: fault_def Let_def)
  from st rest again show ?thesis unfolding f by blast
qed

theorem lossy_fault_is_terminal_witness:
  "state (snd (fault example_constants True (example_messenger, lossy_pipe))) = STATE_CLOSED
   \<and> rank_pipe (fst (fault example_constants True (example_messenger, lossy_pipe))) 20 = None
   \<and> out_q (snd (fault example_constants True (example_messenger, lossy_pipe))) = []
   \<and> delay_thread (snd (fault example_constants True (example_messenger, lossy_pipe))) = Some []
   \<and> con_pipe (conns (fst (fault example_constants True (example_messenger, lossy_pipe))) 1) = None
   \<and> notifications (fst (fault example_constants True (example_messenger, lossy_pipe)))
       = [Queue_reset 1]"
proof -
  have h: "lossy (policy lossy_pipe)" "state lossy_pipe \<noteq> STATE_CONNECTING"
    "state lossy_pipe \<noteq> STATE_CLOSED" "state lossy_pipe \<noteq> STATE_CLOSING"
    by (simp_all add: lossy_pipe_def example_pipe_def example_policy_def)
  have e: "rank_pipe (fst (fault example_constants True (example_messenger, lossy_pipe))) 20 = None
    \<and> con_pipe (conns (fst (fault example_constants True (example_messenger, lossy_pipe))) 1) = None"
    by (simp add: lossy_pipe_def example_pipe_def example_policy_def example_messenger_def
        example_connection_def example_constants_def fault_def fault_lossy_def Let_def stop_def
        shutdown_socket_def discard_out_queue_def delay_discard_def delay_discard_loop_keeps
        unregister_pipe_def dq_discard_queue_def clear_pipe_def dq_notify_def
        dispatch_throttle_release_def msg_def)
  have c: "delay_thread lossy_pipe = Some [(7, msg 4 9)]" "connection_state lossy_pipe = 1"
    "notifications example_messenger = []"
    by (simp_all add: lossy_pipe_def example_pipe_def example_messenger_def)
  note t = lossy_fault_is_terminal
             [OF h, where K = example_constants and onread = True and w = example_messenger
                and again = False]
  from t have "delay_thread (snd (fault example_constants True (example_messenger, lossy_pipe)))
      = map_option (\<lambda>dq. []) (delay_thread lossy_pipe)"
    and "notifications (fst (fault example_constants True (example_messenger, lossy_pipe)))
      = notifications example_messenger @ [Queue_reset (connection_state lossy_pipe)]"
    by blast+
  then have "delay_thread (snd (fault example_constants True (example_messenger, lossy_pipe)))
      = Some []"
    and "notifications (fst (fault example_constants True (example_messenger, lossy_pipe)))
      = [Queue_reset 1]"
    by (simp_all only: c option.map append_Nil)
  with t e show ?thesis by blast
qed

section \<open>Pipe: proofs about the connect race\<close>

lemma race_step:
  assumes "connect_race connect existing"
  shows "accept_existing K rnd connect this w existing =
           (if peer_addr this < my_addr w \<or> server (policy existing)
            then (Goto_replace, w, existing)
            else if my_addr w < peer_addr this
            then (Goto_reply CEPH_MSGR_TAG_WAIT 0 0, w, send_keepalive existing)
            else (Assert_failed, w, existing))"
proof -
  from assms have "\<not> c_global_seq connect < peer_global_seq existing"
    and "\<not> lossy (policy existing)"
    and "\<not> (c_connect_seq connect = 0 \<and> connect_seq existing > 0)"
    and "\<not> c_connect_seq connect < connect_seq existing"
    and "c_connect_seq connect = connect_seq existing"
    and "state existing = STATE_CONNECTING"
    by (auto simp: connect_race_def)
  then show ?thesis
    unfolding accept_existing_def by auto
qed

text \<open>
  C1 (as the code has it). Two peers with different addresses \<open>a\<close> and \<open>b\<close> race: each
  has an outgoing attempt to the other in state CONNECTING, not lossy, and receives the
  other's connect with the \<open>connect_seq\<close> of its own attempt. On the accepting side the
  rule is: replace the existing outgoing attempt when \<open>peer_addr < my_addr\<close> or
  \<open>existing.policy.server\<close>, otherwise reply WAIT, keep the existing Pipe and send a
  keepalive on it. Hence, when neither existing Pipe has the \<open>server\<close> bit, exactly one
  side replaces its outgoing attempt and the other keeps its own: the attempt that
  survives is the one of the side with the lesser address.
\<close>

theorem connect_race_lesser_address_survives:
  assumes "connect_race connect_from_B outgoing_a" and "connect_race connect_from_A outgoing_b"
    and "my_addr w_a = a" and "peer_addr accepting_a = b"
    and "my_addr w_b = b" and "peer_addr accepting_b = a"
    and "a \<noteq> b"
  shows "accept_existing K rnd connect_from_B accepting_a w_a outgoing_a =
           (if b < a \<or> server (policy outgoing_a) then (Goto_replace, w_a, outgoing_a)
            else (Goto_reply CEPH_MSGR_TAG_WAIT 0 0, w_a, send_keepalive outgoing_a))
    \<and> accept_existing K rnd' connect_from_A accepting_b w_b outgoing_b =
           (if a < b \<or> server (policy outgoing_b) then (Goto_replace, w_b, outgoing_b)
            else (Goto_reply CEPH_MSGR_TAG_WAIT 0 0, w_b, send_keepalive outgoing_b))
    \<and> (\<not> server (policy outgoing_a) \<and> \<not> server (policy outgoing_b) \<and> a < b \<longrightarrow>
         fst (accept_existing K rnd connect_from_B accepting_a w_a outgoing_a)
           = Goto_reply CEPH_MSGR_TAG_WAIT 0 0
         \<and> fst (accept_existing K rnd' connect_from_A accepting_b w_b outgoing_b) = Goto_replace)
    \<and> (\<not> server (policy outgoing_a) \<and> \<not> server (policy outgoing_b) \<and> b < a \<longrightarrow>
         fst (accept_existing K rnd connect_from_B accepting_a w_a outgoing_a) = Goto_replace
         \<and> fst (accept_existing K rnd' connect_from_A accepting_b w_b outgoing_b)
           = Goto_reply CEPH_MSGR_TAG_WAIT 0 0)"
proof -
  from assms(7) have "a < b \<or> b < a" by auto
  then show ?thesis
    using race_step [OF assms(1), of K rnd accepting_a w_a]
      race_step [OF assms(2), of K rnd' accepting_b w_b] assms(3-6)
    by auto
qed

theorem connect_race_lesser_address_survives_witness:
  "accept_existing example_constants 0 example_connect accepting_A messenger_A outgoing_A =
     (Goto_reply CEPH_MSGR_TAG_WAIT 0 0, messenger_A, send_keepalive outgoing_A)
   \<and> accept_existing example_constants 0 example_connect accepting_B messenger_B outgoing_B =
     (Goto_replace, messenger_B, outgoing_B)"
proof -
  have h: "connect_race example_connect outgoing_A" "connect_race example_connect outgoing_B"
    "my_addr messenger_A = 10" "peer_addr accepting_A = 20"
    "my_addr messenger_B = 20" "peer_addr accepting_B = 10" "(10::nat) \<noteq> 20"
    by (simp_all add: connect_race_def example_connect_def outgoing_A_def outgoing_B_def
        messenger_A_def messenger_B_def accepting_A_def accepting_B_def example_pipe_def
        example_policy_def example_messenger_def)
  have s: "\<not> server (policy outgoing_A)" "\<not> server (policy outgoing_B)"
    by (simp_all add: outgoing_A_def outgoing_B_def example_pipe_def example_policy_def)
  from connect_race_lesser_address_survives
         [OF h, where K = example_constants and rnd = 0 and rnd' = 0] s
  show ?thesis by simp
qed

text \<open>
  C1 as the specification words it fails. A has the address 10 and B the greater address
  20, no \<open>server\<close> bit: B, accepting A's connect, replaces its own outgoing attempt, and
  A, accepting B's connect, replies WAIT and keeps its own. The attempt that survives is
  the one of A, the side with the lesser address.
\<close>

theorem connect_race_greater_address_counterexample:
  "my_addr messenger_A < my_addr messenger_B
   \<and> \<not> server (policy outgoing_A) \<and> \<not> server (policy outgoing_B)
   \<and> fst (accept_existing example_constants 0 example_connect accepting_B messenger_B outgoing_B)
       = Goto_replace
   \<and> accept_existing example_constants 0 example_connect accepting_A messenger_A outgoing_A
       = (Goto_reply CEPH_MSGR_TAG_WAIT 0 0, messenger_A, send_keepalive outgoing_A)"
  by (simp add: accept_existing_def example_connect_def outgoing_A_def outgoing_B_def
      messenger_A_def messenger_B_def accepting_A_def accepting_B_def example_pipe_def
      example_policy_def example_messenger_def)

section \<open>Pipe: proofs about the replacement\<close>

lemma fold_splice_get:
  "distinct ks \<Longrightarrow>
   q_get k (fold (\<lambda>k q'. q_upd k (\<lambda>cur. g k @ cur) q') ks q) =
     (if k \<in> set ks then g k @ q_get k q else q_get k q)"
proof (induction ks arbitrary: q)
  case Nil
  then show ?case by simp
next
  case (Cons a ks)
  from Cons.prems have d: "distinct ks" and a: "a \<notin> set ks" by simp_all
  have "q_get k (fold (\<lambda>k q'. q_upd k (\<lambda>cur. g k @ cur) q') (a # ks) q) =
        (if k \<in> set ks then g k @ q_get k (q_upd a (\<lambda>cur. g a @ cur) q)
         else q_get k (q_upd a (\<lambda>cur. g a @ cur) q))"
    using Cons.IH [OF d] by simp
  also have "\<dots> = (if k \<in> set (a # ks) then g k @ q_get k q else q_get k q)"
  proof (cases "k = a")
    case True
    with a show ?thesis by (simp add: q_get_q_upd_same)
  next
    case False
    then show ?thesis by (simp add: q_get_q_upd_other)
  qed
  finally show ?case .
qed

lemma q_get_no_key: "k \<notin> fst ` set q \<Longrightarrow> q_get k q = []"
  using map_of_eq_None_iff [of q k] by (simp add: q_get_def)

lemma splice_queues_get: "q_get k (splice_queues eq q) = q_get k eq @ q_get k q"
  unfolding splice_queues_def
  by (simp add: fold_splice_get q_get_no_key)

lemma spliced_out_get: "q_get k (spliced_out eq) = []"
  by (induction "remdups (map fst eq)" arbitrary: eq)
     (auto simp: spliced_out_def q_get_def map_of_map_restrict restrict_map_def)


lemma requeue_sent_get:
  "q_get k (out_q (requeue_sent K p)) =
     (if k = CEPH_MSG_PRIO_HIGHEST K then sent p else []) @ q_get k (out_q p)"
  by (simp add: requeue_sent_def Let_def requeue_loop_eq q_get_q_upd_same q_get_q_upd_other)

lemma requeue_sent_fields:
  "sent (requeue_sent K p) = [] \<and>
   out_seq (requeue_sent K p) = out_seq p - of_nat (length (sent p)) \<and>
   conn_id (requeue_sent K p) = conn_id p \<and>
   state_closed (requeue_sent K p) = state_closed p \<and>
   in_seq (requeue_sent K p) = in_seq p"
  by (simp add: requeue_sent_def Let_def requeue_loop_eq)

lemma delay_flush_loop_registry:
  "rank_pipe (delay_flush_loop cid dq w) = rank_pipe w \<and>
   conns (delay_flush_loop cid dq w) = conns w"
  by (induction dq arbitrary: w) (auto simp: dq_enqueue_def)

lemma delay_flush_pipe:
  "snd (delay_flush (w, p)) = p\<lparr>delay_thread := map_option (\<lambda>dq. []) (delay_thread p)\<rparr>"
  by (simp add: delay_flush_def split: option.splits)

lemma delay_flush_registry:
  "rank_pipe (fst (delay_flush (w, p))) = rank_pipe w \<and>
   conns (fst (delay_flush (w, p))) = conns w"
  by (simp add: delay_flush_def delay_flush_loop_registry split: option.splits)

lemma stop_eq:
  "stop p = p\<lparr>state := STATE_CLOSED, state_closed := True,
              cond_signals := cond_signals p + 1,
              socket_shutdown := (0 \<le> sd p \<or> socket_shutdown p)\<rparr>"
  by (simp add: stop_def shutdown_socket_def)

text \<open>
  C3 (as the code has it). The block \<open>replace\<close> of \<open>Pipe::accept\<close> stops the existing
  Pipe (state CLOSED) and removes it from the registry. When the existing Pipe is not
  lossy, the accepting Pipe takes its \<open>connection_state\<close> (which now points to the
  accepting Pipe), its \<open>conn_id\<close> (the two are swapped), its \<open>in_seq\<close> (also as
  \<open>in_seq_acked\<close>), and its \<open>out_seq\<close> after the requeue, that is less the number of
  messages of \<open>sent\<close>. Every bucket of the new \<open>out_q\<close> is the old bucket followed by
  what the accepting Pipe had there, and the bucket of \<open>CEPH_MSG_PRIO_HIGHEST\<close> begins
  with the old \<open>sent\<close> in its order; a message submitted afterwards comes behind. The
  old Pipe is left with no message in \<open>sent\<close> or \<open>out_q\<close>. When the existing Pipe is
  lossy, the accepting Pipe is unchanged: nothing is adopted.
\<close>

theorem replace_adopts_state_and_queues:
  assumes "accept_replace K connect w existing this = (w', e', t', reply_seq, existing_seq)"
  shows "(\<not> lossy (policy existing) \<longrightarrow>
           connection_state t' = connection_state existing
         \<and> conn_id t' = conn_id existing
         \<and> in_seq t' = in_seq existing
         \<and> in_seq_acked t' = in_seq existing
         \<and> out_seq t' = out_seq existing - of_nat (length (sent existing))
         \<and> sent t' = sent this
         \<and> q_get k (out_q t') =
             (if k = CEPH_MSG_PRIO_HIGHEST K then sent existing else [])
               @ q_get k (out_q existing) @ q_get k (out_q this)
         \<and> q_get (CEPH_MSG_PRIO_HIGHEST K) (out_q (pipe_send m t')) =
             sent existing @ q_get (CEPH_MSG_PRIO_HIGHEST K) (out_q existing)
               @ q_get (CEPH_MSG_PRIO_HIGHEST K) (out_q this)
               @ (if m_priority m = CEPH_MSG_PRIO_HIGHEST K then [m] else [])
         \<and> con_pipe (conns w' (connection_state existing)) = Some (pipe_id this)
         \<and> sent e' = [] \<and> q_get k (out_q e') = [] \<and> conn_id e' = conn_id this)
    \<and> state e' = STATE_CLOSED \<and> state_closed e'
    \<and> rank_pipe w' (peer_addr existing) \<noteq> Some (pipe_id existing)
    \<and> (lossy (policy existing) \<longrightarrow> t' = this)"
proof (cases "lossy (policy existing)")
  case True
  with assms have w': "w' = unregister_pipe w (stop existing)"
    and e': "e' = stop existing" and t': "t' = this"
    by (auto simp: accept_replace_def Let_def stop_eq)
  have "rank_pipe w' (peer_addr existing) \<noteq> Some (pipe_id existing)"
    by (simp add: w' unregister_pipe_def stop_eq)
  moreover have "state e' = STATE_CLOSED" "state_closed e'"
    by (simp_all add: e' stop_eq)
  ultimately show ?thesis using True t' by simp
next
  case False
  let ?e1 = "stop existing"
  let ?w2 = "reset_pipe (connection_state ?e1) (pipe_id this) (unregister_pipe w ?e1)"
  let ?e3 = "snd (delay_flush (?w2, ?e1))"
  let ?e4 = "requeue_sent K (?e3\<lparr>conn_id := conn_id this\<rparr>)"
  from assms False have w': "w' = fst (delay_flush (?w2, ?e1))"
    and e': "e' = ?e4\<lparr>out_q := spliced_out (out_q ?e4)\<rparr>"
    and t': "t' = this\<lparr>connection_state := connection_state ?e1, conn_id := conn_id ?e3,
                   in_seq := in_seq ?e3, in_seq_acked := in_seq ?e3, out_seq := out_seq ?e4,
                   out_q := splice_queues (out_q ?e4) (out_q this)\<rparr>"
    by (simp_all add: accept_replace_def Let_def stop_eq)
  have e1: "connection_state ?e1 = connection_state existing" "conn_id ?e1 = conn_id existing"
    "in_seq ?e1 = in_seq existing" "out_seq ?e1 = out_seq existing" "sent ?e1 = sent existing"
    "out_q ?e1 = out_q existing" "state ?e1 = STATE_CLOSED" "state_closed ?e1"
    "peer_addr ?e1 = peer_addr existing" "pipe_id ?e1 = pipe_id existing"
    by (simp_all add: stop_eq)
  have e4: "sent ?e4 = []" "out_seq ?e4 = out_seq existing - of_nat (length (sent existing))"
    "state ?e4 = STATE_CLOSED" "state_closed ?e4" "conn_id ?e4 = conn_id this"
    "\<And>k. q_get k (out_q ?e4) =
       (if k = CEPH_MSG_PRIO_HIGHEST K then sent existing else []) @ q_get k (out_q existing)"
    by (simp_all add: requeue_sent_fields requeue_sent_keeps requeue_sent_get delay_flush_pipe e1)
  have w1: "rank_pipe w' (peer_addr existing) \<noteq> Some (pipe_id existing)"
    and con: "con_pipe (conns w' (connection_state existing)) = Some (pipe_id this)"
    by (simp_all add: w' delay_flush_registry reset_pipe_def unregister_pipe_def e1)
  have t: "\<And>k. q_get k (out_q t') =
             (if k = CEPH_MSG_PRIO_HIGHEST K then sent existing else [])
               @ q_get k (out_q existing) @ q_get k (out_q this)"
    by (simp add: t' splice_queues_get e4)
  have snd: "q_get (CEPH_MSG_PRIO_HIGHEST K) (out_q (pipe_send m t')) =
             sent existing @ q_get (CEPH_MSG_PRIO_HIGHEST K) (out_q existing)
               @ q_get (CEPH_MSG_PRIO_HIGHEST K) (out_q this)
               @ (if m_priority m = CEPH_MSG_PRIO_HIGHEST K then [m] else [])"
    by (simp add: pipe_send_def q_get_q_upd_same q_get_q_upd_other t)
  have tf: "connection_state t' = connection_state existing" "conn_id t' = conn_id existing"
    "in_seq t' = in_seq existing" "in_seq_acked t' = in_seq existing"
    "out_seq t' = out_seq existing - of_nat (length (sent existing))" "sent t' = sent this"
    by (simp_all add: t' requeue_sent_fields delay_flush_pipe e1)
  have ef: "sent e' = []" "q_get k (out_q e') = []" "conn_id e' = conn_id this"
    "state e' = STATE_CLOSED" "state_closed e'"
    by (simp_all add: e' e4 spliced_out_get)
  from False tf t snd con ef w1 show ?thesis by simp
qed


theorem replace_adopts_state_and_queues_witness:
  "\<not> lossy (policy replaced_pipe)
   \<and> fst (accept_existing example_constants 0 example_reconnect accepting_A example_messenger
           replaced_pipe) = Goto_replace
   \<and> connection_state (fst (snd (snd example_replacement))) = 1
   \<and> conn_id (fst (snd (snd example_replacement))) = 1
   \<and> in_seq (fst (snd (snd example_replacement))) = 7
   \<and> out_seq (fst (snd (snd example_replacement))) = 40
   \<and> q_get 255 (out_q (fst (snd (snd example_replacement)))) = [msg 1 41, msg 2 42, msg 3 0]
   \<and> q_get 127 (out_q (fst (snd (snd example_replacement)))) = [msg 4 0]
   \<and> state (fst (snd example_replacement)) = STATE_CLOSED
   \<and> rank_pipe (fst example_replacement) 20 \<noteq> Some 1"
proof -
  have h: "accept_replace example_constants example_reconnect example_messenger replaced_pipe accepting_A
      = (fst example_replacement, fst (snd example_replacement),
         fst (snd (snd example_replacement)), fst (snd (snd (snd example_replacement))),
         snd (snd (snd (snd example_replacement))))"
    by (simp add: example_replacement_def)
  have nl: "\<not> lossy (policy replaced_pipe)"
    by (simp add: replaced_pipe_def example_pipe_def example_policy_def)
  have c: "connection_state replaced_pipe = 1" "conn_id replaced_pipe = 1"
    "in_seq replaced_pipe = 7" "out_seq replaced_pipe = 42"
    "peer_addr replaced_pipe = 20" "pipe_id replaced_pipe = 1"
    "CEPH_MSG_PRIO_HIGHEST example_constants = 255"
    "sent replaced_pipe = [msg 1 41, msg 2 42]"
    "q_get 255 (out_q replaced_pipe) = [msg 3 0]" "q_get 255 (out_q accepting_A) = []"
    "q_get 127 (out_q replaced_pipe) = [msg 4 0]" "q_get 127 (out_q accepting_A) = []"
    by (simp_all add: replaced_pipe_def accepting_A_def example_pipe_def example_constants_def
        q_get_def)
  note t255 = replace_adopts_state_and_queues [OF h, where k = 255 and m = "msg 9 0"]
  note t127 = replace_adopts_state_and_queues [OF h, where k = 127 and m = "msg 9 0"]
  from t255 nl have "connection_state (fst (snd (snd example_replacement))) = 1"
    "conn_id (fst (snd (snd example_replacement))) = 1"
    "in_seq (fst (snd (snd example_replacement))) = 7"
    "out_seq (fst (snd (snd example_replacement))) = 40"
    "q_get 255 (out_q (fst (snd (snd example_replacement)))) = [msg 1 41, msg 2 42, msg 3 0]"
    "state (fst (snd example_replacement)) = STATE_CLOSED"
    "rank_pipe (fst example_replacement) 20 \<noteq> Some 1"
    by (simp_all add: c)
  moreover from t127 nl
  have "q_get 127 (out_q (fst (snd (snd example_replacement)))) = [msg 4 0]"
    by (simp add: c)
  moreover have "fst (accept_existing example_constants 0 example_reconnect accepting_A
      example_messenger replaced_pipe) = Goto_replace"
    by (simp add: accept_existing_def example_reconnect_def example_connect_def
        replaced_pipe_def accepting_A_def example_pipe_def example_policy_def)
  ultimately show ?thesis using nl by blast
qed

text \<open>
  C3 as the specification words it fails. The handshake replaces an existing lossy Pipe
  (after \<open>was_session_reset\<close>), and the accepting Pipe keeps its own \<open>conn_id\<close> and
  \<open>connection_state\<close>; its \<open>in_seq\<close> is 0 while that of the old Pipe was 7.
\<close>

theorem replace_lossy_adopts_nothing_counterexample:
  "lossy (policy replaced_lossy_pipe)
   \<and> fst (accept_existing example_constants 0 example_connect accepting_A example_messenger
           replaced_lossy_pipe) = Goto_replace
   \<and> conn_id replaced_lossy_pipe = 1
   \<and> conn_id (fst (snd (snd example_lossy_replacement))) = 2
   \<and> connection_state replaced_lossy_pipe = 1
   \<and> connection_state (fst (snd (snd example_lossy_replacement))) = 2
   \<and> in_seq replaced_lossy_pipe = 7
   \<and> in_seq (fst (snd (snd example_lossy_replacement))) = 0"
  by (simp add: example_lossy_replacement_def replaced_lossy_pipe_def accepting_A_def
      example_pipe_def example_policy_def example_connect_def example_messenger_def
      example_constants_def example_connection_def accept_existing_def accept_replace_def
      Let_def was_session_reset_def dq_discard_queue_def delay_discard_def
      discard_out_queue_def dq_notify_def randomize_out_seq_def stop_eq unregister_pipe_def)

section \<open>Pipe: proofs about the reader\<close>

lemma delay_discard_pipe:
  "snd (delay_discard (w, p)) = p\<lparr>delay_thread := map_option (\<lambda>dq. []) (delay_thread p)\<rparr>"
  by (simp add: delay_discard_def split: option.splits)

lemma fault_lossy_in_seq: "in_seq (snd (fault_lossy (w, p))) = in_seq p"
  by (simp add: fault_lossy_def Let_def delay_discard_pipe discard_out_queue_def stop_eq)

lemma fault_retry_in_seq: "in_seq (fault_retry K w p) = in_seq p"
  by (simp add: fault_retry_def)

lemma fault_in_seq: "in_seq (snd (fault K onread (w, p))) = in_seq p"
  by (simp add: fault_def Let_def fault_lossy_in_seq fault_retry_in_seq requeue_sent_fields
      delay_flush_pipe shutdown_socket_def)

lemma handle_ack_in_seq: "in_seq (handle_ack seq p) = in_seq p"
  by (simp add: handle_ack_def Let_def stop_eq)

lemma reader_got_message_in_seq:
  "in_seq p \<le> in_seq (snd (reader_got_message K release r mo (w, p)))"
  by (cases mo) (auto simp: reader_got_message_def Let_def fault_in_seq split: option.splits)

lemma reader_turn_in_seq:
  "in_seq p \<le> in_seq (snd (reader_turn K release ev (w, p)))"
  by (cases ev)
     (auto simp: reader_turn_def Let_def fault_in_seq handle_ack_in_seq
        reader_got_message_in_seq split: option.splits)

lemma reader_turns_in_seq:
  "in_seq (snd wp) \<le> in_seq (snd (reader_turns K release evs wp))"
proof (induction evs arbitrary: wp)
  case Nil
  show ?case by simp
next
  case (Cons ev evs)
  have "in_seq (snd wp) \<le> in_seq (snd (reader_turn K release ev wp))"
    using reader_turn_in_seq [of "snd wp" K release ev "fst wp"] by simp
  also have "\<dots> \<le> in_seq (snd (reader_turns K release evs (reader_turn K release ev wp)))"
    by (rule Cons.IH)
  finally show ?case by simp
qed

lemma reader_loop_in_seq:
  "in_seq (snd wp) \<le> in_seq (snd (reader_loop K release evs wp))"
proof (induction evs arbitrary: wp)
  case Nil
  show ?case by simp
next
  case (Cons ev evs)
  have t: "in_seq (snd wp) \<le> in_seq (snd (reader_turn K release ev wp))"
    using reader_turn_in_seq [of "snd wp" K release ev "fst wp"] by simp
  also have "\<dots> \<le> in_seq (snd (reader_loop K release evs (reader_turn K release ev wp)))"
    by (rule Cons.IH)
  finally have "in_seq (snd wp)
      \<le> in_seq (snd (reader_loop K release evs (reader_turn K release ev wp)))" .
  with t show ?case by auto
qed

text \<open>
  C4. When the reader, in state OPEN, receives a message \<open>m\<close>: if \<open>m.seq \<le> in_seq\<close> the
  message is discarded as a duplicate, the Pipe (so \<open>in_seq\<close>) and the dispatch queue
  are unchanged; otherwise \<open>in_seq\<close> becomes \<open>m.seq\<close> and \<open>m\<close> is enqueued, to the
  dispatch queue with its priority and the Pipe's \<open>conn_id\<close>, or to the delay queue when
  the Pipe has a delay thread. Over any sequence of turns of the reader, in any state,
  and over any run of the reader loop, \<open>in_seq\<close> does not decrease.
\<close>

theorem reader_discards_old_seq:
  "(state p = STATE_OPEN \<and> m_seq m \<le> in_seq p \<longrightarrow>
       snd (reader_turn K release (Got_msg r (Some m)) (w, p)) = p
     \<and> in_q (fst (reader_turn K release (Got_msg r (Some m)) (w, p))) = in_q w)
   \<and> (state p = STATE_OPEN \<and> in_seq p < m_seq m \<longrightarrow>
       in_seq (snd (reader_turn K release (Got_msg r (Some m)) (w, p))) = m_seq m
     \<and> (delay_thread p = None \<longrightarrow>
          in_q (fst (reader_turn K release (Got_msg r (Some m)) (w, p)))
            = in_q w @ [(m, m_priority m, conn_id p)])
     \<and> (delay_thread p = Some dq \<longrightarrow>
          delay_thread (snd (reader_turn K release (Got_msg r (Some m)) (w, p)))
            = Some (dq @ [(release, m)])
          \<and> in_q (fst (reader_turn K release (Got_msg r (Some m)) (w, p))) = in_q w))
   \<and> in_seq p \<le> in_seq (snd (reader_turns K release evs (w, p)))
   \<and> in_seq p \<le> in_seq (snd (reader_loop K release evs (w, p)))"
proof (intro conjI impI)
  show "in_seq p \<le> in_seq (snd (reader_turns K release evs (w, p)))"
    using reader_turns_in_seq [of "(w, p)" K release evs] by simp
  show "in_seq p \<le> in_seq (snd (reader_loop K release evs (w, p)))"
    using reader_loop_in_seq [of "(w, p)" K release evs] by simp
qed (auto simp: reader_turn_def reader_got_message_def Let_def dispatch_throttle_release_def
      dq_enqueue_def not_le [symmetric] split: option.splits)

theorem reader_discards_old_seq_witness:
  "snd (reader_turn example_constants 0 (Got_msg 0 (Some (msg 1 5)))
          (example_messenger, duplicate_pipe)) = duplicate_pipe
   \<and> in_q (fst (reader_turn example_constants 0 (Got_msg 0 (Some (msg 1 5)))
          (example_messenger, duplicate_pipe))) = []
   \<and> in_seq (snd (reader_turn example_constants 0 (Got_msg 0 (Some (msg 2 8)))
          (example_messenger, duplicate_pipe))) = 8
   \<and> in_q (fst (reader_turn example_constants 0 (Got_msg 0 (Some (msg 2 8)))
          (example_messenger, duplicate_pipe))) = [(msg 2 8, 127, 1)]"
proof -
  have h: "state duplicate_pipe = STATE_OPEN" "m_seq (msg 1 5) \<le> in_seq duplicate_pipe"
    "in_seq duplicate_pipe < m_seq (msg 2 8)" "delay_thread duplicate_pipe = None"
    by (simp_all add: duplicate_pipe_def example_pipe_def msg_def)
  have c: "in_q example_messenger = []" "m_seq (msg 2 8) = 8" "m_priority (msg 2 8) = 127"
    "conn_id duplicate_pipe = 1"
    by (simp_all add: example_messenger_def msg_def duplicate_pipe_def example_pipe_def)
  from reader_discards_old_seq
         [where p = duplicate_pipe and m = "msg 1 5" and K = example_constants
            and release = 0 and r = 0 and w = example_messenger and evs = "[]"] h
  have a: "snd (reader_turn example_constants 0 (Got_msg 0 (Some (msg 1 5)))
          (example_messenger, duplicate_pipe)) = duplicate_pipe"
    "in_q (fst (reader_turn example_constants 0 (Got_msg 0 (Some (msg 1 5)))
          (example_messenger, duplicate_pipe))) = []"
    by (simp_all add: c)
  from reader_discards_old_seq
         [where p = duplicate_pipe and m = "msg 2 8" and K = example_constants
            and release = 0 and r = 0 and w = example_messenger and evs = "[]"] h
  have b: "in_seq (snd (reader_turn example_constants 0 (Got_msg 0 (Some (msg 2 8)))
          (example_messenger, duplicate_pipe))) = 8"
    "in_q (fst (reader_turn example_constants 0 (Got_msg 0 (Some (msg 2 8)))
          (example_messenger, duplicate_pipe))) = [(msg 2 8, 127, 1)]"
    by (simp_all add: c)
  from a b show ?thesis by blast
qed

lemma throttle_release_acquire:
  "throttle_release p msize (throttle_acquire p msize w) = w"
  by (cases w)
     (auto simp: throttle_release_def throttle_acquire_def Let_def throttle_get_def
        throttle_put_def dispatch_throttle_release_def fun_eq_iff split: option.splits)

text \<open>
  C7. When \<open>read_message\<close> reads a message up to its footer (the header checksum
  matches and the reads of front, middle and data succeed) and the footer lacks the
  COMPLETE flag, it returns 0 with no message and gives back every throttle unit it took
  (one message and the message size in bytes to the policy throttles, the message size to
  the dispatch throttle): the messenger is what it was before the call. The reader then
  goes on without a fault: the Pipe, so \<open>in_seq\<close>, and the dispatch queue are unchanged.
\<close>

theorem aborted_message_releases_throttles:
  assumes "w_header wi = Some (h, crc)" and "crc = h_crc h"
    and "h_front_len h \<noteq> 0 \<longrightarrow> w_front_ok wi"
    and "h_middle_len h \<noteq> 0 \<longrightarrow> w_middle_ok wi"
    and "h_data_len h \<noteq> 0 \<longrightarrow> read_data (h_data_len h) (w_data wi) = Some True"
    and "w_footer wi = Some f"
    and "f_flags f AND CEPH_MSG_FOOTER_COMPLETE K = 0"
  shows "read_message K wi w p = Some (0, None, w)
    \<and> throttle_release p (ucast (h_front_len h + h_middle_len h + h_data_len h))
        (throttle_acquire p (ucast (h_front_len h + h_middle_len h + h_data_len h)) w) = w
    \<and> reader_turn K release (Got_msg 0 None) (w, p) = (w, p)"
proof -
  let ?size = "ucast (h_front_len h + h_middle_len h + h_data_len h) :: u64"
  have body: "read_body K wi (throttle_acquire p ?size w) p h ?size = Some (0, None)"
    using assms by (auto simp: read_body_def Let_def)
  have "read_message K wi w p = Some (0, None, throttle_release p ?size (throttle_acquire p ?size w))"
    using assms(1,2) body by (simp add: read_message_def Let_def)
  moreover have "reader_turn K release (Got_msg 0 None) (w, p) = (w, p)"
    by (simp add: reader_turn_def reader_got_message_def Let_def)
  ultimately show ?thesis by (simp add: throttle_release_acquire)
qed

theorem aborted_message_releases_throttles_witness:
  "read_message example_constants aborted_wire example_messenger throttled_pipe
     = Some (0, None, example_messenger)
   \<and> throttles (throttle_acquire throttled_pipe 3 example_messenger) 0 = 1
   \<and> throttles (throttle_acquire throttled_pipe 3 example_messenger) 1 = 3
   \<and> dispatch_throttler (throttle_acquire throttled_pipe 3 example_messenger) = 3"
proof -
  let ?h = "\<lparr>h_seq = 8, h_tid = 0, h_front_len = 1, h_middle_len = 0,
             h_data_len = 2, h_data_off = 0, h_crc = 5\<rparr>"
  let ?f = "\<lparr>f_front_crc = 0, f_middle_crc = 0, f_data_crc = 0, f_sig = 0, f_flags = 0\<rparr>"
  have h: "w_header aborted_wire = Some (?h, 5)" "5 = h_crc ?h"
    "h_front_len ?h \<noteq> 0 \<longrightarrow> w_front_ok aborted_wire"
    "h_middle_len ?h \<noteq> 0 \<longrightarrow> w_middle_ok aborted_wire"
    "h_data_len ?h \<noteq> 0 \<longrightarrow> read_data (h_data_len ?h) (w_data aborted_wire) = Some True"
    "w_footer aborted_wire = Some ?f"
    "f_flags ?f AND CEPH_MSG_FOOTER_COMPLETE example_constants = 0"
    by (simp_all add: aborted_wire_def example_constants_def)
  have t: "throttles (throttle_acquire throttled_pipe 3 example_messenger) 0 = 1
   \<and> throttles (throttle_acquire throttled_pipe 3 example_messenger) 1 = 3
   \<and> dispatch_throttler (throttle_acquire throttled_pipe 3 example_messenger) = 3"
    by (simp add: throttle_acquire_def throttle_get_def throttled_pipe_def example_pipe_def
        example_policy_def example_messenger_def Let_def)
  from aborted_message_releases_throttles
         [OF h, where w = example_messenger and p = throttled_pipe and release = 0] t
  show ?thesis by blast
qed

section \<open>Pipe: proofs about requeueing over the life of a Pipe\<close>

lemma sent_numbered_empty: "sent p = [] \<Longrightarrow> sent_numbered p"
  by (simp add: sent_numbered_def)

lemma sent_numbered_same:
  "sent q = sent p \<Longrightarrow> out_seq q = out_seq p \<Longrightarrow> policy q = policy p \<Longrightarrow>
   close_on_empty q = close_on_empty p \<Longrightarrow> sent_numbered q = sent_numbered p"
  by (simp add: sent_numbered_def)

lemma seqs_from_snoc:
  "seqs_from s (ms @ [m]) = (seqs_from s ms \<and> m_seq m = s + of_nat (length ms) + 1)"
  by (induction ms arbitrary: s) (auto simp: ac_simps)

lemma sent_numbered_writer_next:
  assumes "sent_numbered p"
  shows "sent_numbered (fst (writer_next p))"
proof (cases "get_next_outgoing (out_q p)")
  case (Pair mo q)
  show ?thesis
  proof (cases mo)
    case None
    with Pair have "fst (writer_next p) = p\<lparr>out_q := q\<rparr>"
      by (simp add: writer_next_def)
    with assms show ?thesis by (simp add: sent_numbered_def)
  next
    case (Some m)
    show ?thesis
    proof (cases "\<not> lossy (policy p) \<or> close_on_empty p")
      case True
      with Pair Some have e: "fst (writer_next p) =
          p\<lparr>out_q := q, out_seq := out_seq p + 1,
            sent := sent p @ [m\<lparr>m_seq := out_seq p + 1\<rparr>]\<rparr>"
        by (simp add: writer_next_def Let_def)
      from assms True show ?thesis
        unfolding e by (auto simp: sent_numbered_def seqs_from_snoc)
    next
      case False
      with assms have "sent p = []" by (auto simp: sent_numbered_def)
      moreover from Pair Some False have "sent (fst (writer_next p)) = sent p"
        by (simp add: writer_next_def Let_def)
      ultimately show ?thesis by (simp add: sent_numbered_empty)
    qed
  qed
qed

lemma handle_ack_loop_numbered:
  "seqs_from (s - of_nat (length ms)) ms \<Longrightarrow>
   seqs_from (s - of_nat (length (handle_ack_loop a ms))) (handle_ack_loop a ms)"
proof (induction ms)
  case Nil
  then show ?case by simp
next
  case (Cons m ms)
  show ?case
  proof (cases "m_seq m \<le> a")
    case True
    from Cons.prems have "seqs_from (s - of_nat (length ms)) ms" by simp
    with True Cons.IH show ?thesis by simp
  next
    case False
    with Cons.prems show ?thesis by simp
  qed
qed

lemma sent_numbered_handle_ack:
  assumes "sent_numbered p"
  shows "sent_numbered (handle_ack a p)"
proof -
  let ?p1 = "p\<lparr>sent := handle_ack_loop a (sent p)\<rparr>"
  from assms have p1: "sent_numbered ?p1"
    by (auto simp: sent_numbered_def handle_ack_loop_numbered)
  have "sent_numbered (stop ?p1) = sent_numbered ?p1"
    by (rule sent_numbered_same) (simp_all add: stop_eq)
  with p1 have st: "sent_numbered (stop ?p1)" by blast
  have "sent_numbered (if sent ?p1 = [] \<and> close_on_empty ?p1 then stop ?p1 else ?p1)"
  proof (cases "sent ?p1 = [] \<and> close_on_empty ?p1")
    case True
    then have "(if sent ?p1 = [] \<and> close_on_empty ?p1 then stop ?p1 else ?p1) = stop ?p1"
      by (rule if_P)
    with st show ?thesis by (simp only:)
  next
    case False
    then have "(if sent ?p1 = [] \<and> close_on_empty ?p1 then stop ?p1 else ?p1) = ?p1"
      by (rule if_not_P)
    with p1 show ?thesis by (simp only:)
  qed
  then show ?thesis unfolding handle_ack_def Let_def .
qed

lemma fault_sent:
  "sent (snd (fault K onread (w, p))) = []
   \<or> (sent (snd (fault K onread (w, p))) = sent p
      \<and> out_seq (snd (fault K onread (w, p))) = out_seq p
      \<and> policy (snd (fault K onread (w, p))) = policy p
      \<and> close_on_empty (snd (fault K onread (w, p))) = close_on_empty p)"
  by (simp add: fault_def Let_def fault_lossy_def fault_retry_def requeue_sent_fields
      delay_discard_pipe discard_out_queue_def)

lemma sent_numbered_fault:
  "sent_numbered p \<Longrightarrow> sent_numbered (snd (fault K onread (w, p)))"
  using fault_sent [of K onread w p]
  by (auto simp: sent_numbered_empty dest: sent_numbered_same)

lemma sent_numbered_reader_turn:
  assumes "sent_numbered p"
  shows "sent_numbered (snd (reader_turn K release ev (w, p)))"
proof (cases ev)
  case (Got_msg r mo)
  show ?thesis
  proof (cases mo)
    case None
    with Got_msg assms show ?thesis
      by (simp add: reader_turn_def reader_got_message_def Let_def sent_numbered_fault)
  next
    case (Some m)
    have "sent_numbered (snd (reader_turn K release ev (w, p))) = sent_numbered p"
      by (rule sent_numbered_same)
         (simp_all add: Got_msg Some reader_turn_def reader_got_message_def Let_def
            split: option.splits)
    with assms show ?thesis by simp
  qed
next
  case Got_close
  have "sent_numbered (snd (reader_turn K release ev (w, p))) = sent_numbered p"
    by (rule sent_numbered_same) (simp_all add: Got_close reader_turn_def Let_def)
  with assms show ?thesis by simp
qed (use assms in \<open>auto simp: reader_turn_def Let_def sent_numbered_fault
       sent_numbered_handle_ack split: option.splits\<close>)

lemma sent_numbered_step:
  assumes "sent_numbered (snd wp)"
  shows "sent_numbered (snd (pipe_step K ev wp))"
proof (cases ev)
  case Writer_takes
  with assms show ?thesis by (simp add: pipe_step_def sent_numbered_writer_next)
next
  case (Reader_turn release revt)
  with assms sent_numbered_reader_turn [of "snd wp" K release revt "fst wp"]
  show ?thesis by (simp add: pipe_step_def)
next
  case (Fault onread)
  with assms sent_numbered_fault [of "snd wp" K onread "fst wp"]
  show ?thesis by (simp add: pipe_step_def)
next
  case (Acked seq)
  with assms show ?thesis by (simp add: pipe_step_def sent_numbered_handle_ack)
next
  case Stopped
  have "sent_numbered (stop (snd wp)) = sent_numbered (snd wp)"
    by (rule sent_numbered_same) (simp_all add: stop_eq)
  with Stopped assms show ?thesis by (simp add: pipe_step_def)
next
  case (Submit m)
  have "sent_numbered (pipe_send m (snd wp)) = sent_numbered (snd wp)"
    by (rule sent_numbered_same) (simp_all add: pipe_send_def)
  with Submit assms show ?thesis by (simp add: pipe_step_def)
next
  case Ask_keepalive
  have "sent_numbered (send_keepalive (snd wp)) = sent_numbered (snd wp)"
    by (rule sent_numbered_same) (simp_all add: send_keepalive_def)
  with Ask_keepalive assms show ?thesis by (simp add: pipe_step_def)
next
  case (Session_reset rnd)
  have "sent (snd (was_session_reset K rnd wp)) = []"
    by (simp add: was_session_reset_def Let_def randomize_out_seq_def discard_out_queue_def)
  with Session_reset show ?thesis by (simp add: pipe_step_def sent_numbered_empty)
next
  case Close_on_empty
  with assms show ?thesis by (auto simp: pipe_step_def sent_numbered_def)
qed

lemma sent_numbered_run:
  "sent_numbered (snd wp) \<Longrightarrow> sent_numbered (snd (pipe_run K evs wp))"
  by (induction evs arbitrary: wp) (simp_all add: sent_numbered_step)


text \<open>
  C2 (as the code has it). \<open>requeue_sent\<close> empties \<open>sent\<close>, puts its messages in their
  order in front of \<open>out_q[CEPH_MSG_PRIO_HIGHEST]\<close> and takes their number off \<open>out_seq\<close>.
  Take a Pipe that had an empty \<open>sent\<close> (as a new Pipe has, or one that connects) and
  has gone through any steps since: the messages of \<open>sent\<close> carry the numbers the writer gave last, the run
  that ends at \<open>out_seq\<close>. If moreover no bucket of \<open>out_q\<close> has a priority above
  \<open>CEPH_MSG_PRIO_HIGHEST\<close>, then after \<open>requeue_sent\<close> the next messages the writer
  takes, as many as \<open>sent\<close> had, are the messages of \<open>sent\<close> in their order, each with the
  sequence number it had.
\<close>

theorem requeue_sent_writer_reassigns:
  "sent (requeue_sent K p) = []
   \<and> q_get (CEPH_MSG_PRIO_HIGHEST K) (out_q (requeue_sent K p)) =
       sent p @ q_get (CEPH_MSG_PRIO_HIGHEST K) (out_q p)
   \<and> out_seq (requeue_sent K p) = out_seq p - of_nat (length (sent p))
   \<and> (sent p0 = [] \<and> pipe_run K evs (w0, p0) = (w, p)
        \<and> (\<forall>k \<in> fst ` set (out_q p). k \<le> CEPH_MSG_PRIO_HIGHEST K) \<longrightarrow>
      seqs_from (out_seq p - of_nat (length (sent p))) (sent p)
      \<and> snd (writer_drain (length (sent p)) (requeue_sent K p)) = sent p)"
proof (intro conjI impI)
  show s: "sent (requeue_sent K p) = []"
    by (simp add: requeue_sent_def Let_def)
  show g: "q_get (CEPH_MSG_PRIO_HIGHEST K) (out_q (requeue_sent K p)) =
       sent p @ q_get (CEPH_MSG_PRIO_HIGHEST K) (out_q p)"
    by (simp add: requeue_sent_def Let_def requeue_loop_eq q_get_q_upd_same)
  show o: "out_seq (requeue_sent K p) = out_seq p - of_nat (length (sent p))"
    by (simp add: requeue_sent_def Let_def requeue_loop_eq)
  assume a: "sent p0 = [] \<and> pipe_run K evs (w0, p0) = (w, p)
        \<and> (\<forall>k \<in> fst ` set (out_q p). k \<le> CEPH_MSG_PRIO_HIGHEST K)"
  then have "sent_numbered (snd (pipe_run K evs (w0, p0)))"
    by (intro sent_numbered_run) (simp add: sent_numbered_empty)
  with a show n: "seqs_from (out_seq p - of_nat (length (sent p))) (sent p)"
    by (simp add: sent_numbered_def)
  have keys: "\<forall>k \<in> fst ` set (out_q (requeue_sent K p)). k \<le> CEPH_MSG_PRIO_HIGHEST K"
    using a unfolding keys_requeue_sent by auto
  from n o have "seqs_from (out_seq (requeue_sent K p)) (sent p)" by simp
  from writer_drain_front [OF this g keys]
  show "snd (writer_drain (length (sent p)) (requeue_sent K p)) = sent p" .
qed

lemma unacked_pipe_eq:
  "unacked_pipe =
     example_pipe\<lparr>sent := [msg 1 41, msg 2 42], out_seq := 42, out_q := [(127, [msg 3 0])]\<rparr>"
  by (simp add: unacked_pipe_def queued_pipe_def pipe_step_def writer_next_def
      get_next_outgoing.simps top_key_def q_get_def example_pipe_def example_policy_def
      msg_def Let_def)

theorem requeue_sent_writer_reassigns_witness:
  "sent unacked_pipe = [msg 1 41, msg 2 42]
   \<and> out_seq unacked_pipe = 42
   \<and> out_seq (requeue_sent example_constants unacked_pipe) = 40
   \<and> q_get 255 (out_q (requeue_sent example_constants unacked_pipe)) = [msg 1 41, msg 2 42]
   \<and> snd (writer_drain 2 (requeue_sent example_constants unacked_pipe)) = [msg 1 41, msg 2 42]"
proof -
  let ?r = "pipe_run example_constants [Writer_takes, Writer_takes] (example_messenger, queued_pipe)"
  have h1: "sent queued_pipe = []"
    by (simp add: queued_pipe_def example_pipe_def)
  have h2: "?r = (fst ?r, unacked_pipe)"
    by (simp add: unacked_pipe_def)
  have h3: "\<forall>k \<in> fst ` set (out_q unacked_pipe). k \<le> CEPH_MSG_PRIO_HIGHEST example_constants"
    by (simp add: unacked_pipe_eq example_constants_def)
  from h1 h2 h3 have h: "sent queued_pipe = [] \<and> ?r = (fst ?r, unacked_pipe)
     \<and> (\<forall>k \<in> fst ` set (out_q unacked_pipe). k \<le> CEPH_MSG_PRIO_HIGHEST example_constants)"
    by blast
  have snt: "sent unacked_pipe = [msg 1 41, msg 2 42]"
    and len: "length [msg 1 41, msg 2 42] = 2"
    and o42: "out_seq unacked_pipe = 42"
    and os: "(42::u64) - of_nat 2 = 40"
    and hp: "CEPH_MSG_PRIO_HIGHEST example_constants = 255"
    and rq: "q_get 255 (out_q unacked_pipe) = []"
    by (simp_all add: unacked_pipe_eq example_pipe_def example_constants_def q_get_def)
  from requeue_sent_writer_reassigns
         [where K = example_constants and p = unacked_pipe and ?p0.0 = queued_pipe
            and evs = "[Writer_takes, Writer_takes]" and ?w0.0 = example_messenger
            and w = "fst ?r"] h
  have "out_seq (requeue_sent example_constants unacked_pipe)
          = out_seq unacked_pipe - of_nat (length (sent unacked_pipe))"
    and "q_get (CEPH_MSG_PRIO_HIGHEST example_constants)
           (out_q (requeue_sent example_constants unacked_pipe)) =
        sent unacked_pipe @ q_get (CEPH_MSG_PRIO_HIGHEST example_constants) (out_q unacked_pipe)"
    and "snd (writer_drain (length (sent unacked_pipe)) (requeue_sent example_constants unacked_pipe))
           = sent unacked_pipe"
    by blast+
  then have "out_seq (requeue_sent example_constants unacked_pipe) = 40"
    and "q_get 255 (out_q (requeue_sent example_constants unacked_pipe)) = [msg 1 41, msg 2 42]"
    and "snd (writer_drain 2 (requeue_sent example_constants unacked_pipe)) = [msg 1 41, msg 2 42]"
    by (simp_all only: snt len o42 os hp rq append_Nil2)
  with snt o42 show ?thesis by blast
qed

text \<open>
  C2 as the specification words it fails. The writer has taken two messages, numbered 8
  and 9 and still in \<open>sent\<close>, and a message of priority 300, above
  \<open>CEPH_MSG_PRIO_HIGHEST\<close>, is submitted. After \<open>requeue_sent\<close> the writer takes that
  message first and gives it the number 8; the first requeued message gets 9, and the
  second is not among the next two.
\<close>

theorem requeue_sent_counterexample:
  "map m_seq (sent urgent_pipe) = [8, 9]
   \<and> out_seq urgent_pipe = 9
   \<and> out_q urgent_pipe = [(300, [urgent_message])]
   \<and> snd (writer_drain 2 (requeue_sent example_constants urgent_pipe))
       = [urgent_message\<lparr>m_seq := 8\<rparr>, msg 1 9]"
  by (simp add: urgent_pipe_def urgent_message_def pipe_step_def pipe_send_def
      example_pipe_def example_policy_def example_constants_def msg_def requeue_sent_def
      requeue_loop_eq q_upd_def q_get_def writer_next_def get_next_outgoing.simps top_key_def
      Let_def numeral_2_eq_2)

end
